theory Spec2Isabelle
  imports Main
begin

section \<open>Python values, exceptions and the trace of effects\<close>

text \<open>
  The installer is a Python script (\<^verbatim>\<open>main.py\<close>). Python integers are unbounded, so
  they are \<^typ>\<open>int\<close>. An exception is a value of \<open>pyexn\<close>; a function that may raise
  returns \<open>pyexn + 'a\<close> with \<open>Inl\<close> for the exception.

  Everything the script does to the outside world is recorded, in order, as a list of
  \<open>event\<close>s:
  \<^item> \<open>Prompt s\<close>: a call \<^verbatim>\<open>input(s)\<close> (one line of standard input is consumed);
  \<^item> \<open>Print s\<close>: a diagnostic printed by the prompt layer (\<^verbatim>\<open>ask\<close>, \<^verbatim>\<open>size_filter\<close>,
    \<^verbatim>\<open>choose\<close>). Headings, menu listings, review summaries and progress lines are
    presentation only and are not recorded;
  \<^item> \<open>Mkpart dev fstype start stop\<close>: the call
    \<^verbatim>\<open>parted dev --script mkpart primary fstype {start}MB {stop}MB\<close>, with the two
    bounds kept as integers instead of their decimal rendering;
  \<^item> \<open>Run argv\<close>: any other \<^verbatim>\<open>subprocess.run(argv, ...)\<close>;
  \<^item> \<open>RunInput argv text\<close>: \<^verbatim>\<open>subprocess.run(argv, input=text, ...)\<close>;
  \<^item> \<open>RunAppend argv path\<close>: \<^verbatim>\<open>subprocess.run(argv, stdout=f)\<close> with \<open>f\<close> the file
    \<open>path\<close> opened for appending;
  \<^item> \<open>FileWrite path mode text\<close>: \<^verbatim>\<open>open(path, mode)\<close> followed by the writes that
    produce \<open>text\<close>;
  \<^item> \<open>MakeDirs path\<close>: \<^verbatim>\<open>os.makedirs(path, exist_ok=True)\<close>.
  External commands are taken to succeed (none raises \<^verbatim>\<open>CalledProcessError\<close>).
\<close>

datatype pyexn =
    EOFError
  | ValueError string
  | TypeError string
  | IndexError string
  | OverflowError string
  | SystemExit string

datatype event =
    Prompt string
  | Print string
  | Mkpart string string int int
  | Run "string list"
  | RunInput "string list" string
  | RunAppend "string list" string
  | FileWrite string string string
  | MakeDirs string


section \<open>Partitioning\<close>

text \<open>
  \<^verbatim>\<open>class Partitioning\<close>. The constructor calls \<^verbatim>\<open>get_disk_size()\<close>, which asks
  \<^verbatim>\<open>lsblk\<close> for the size of the device and divides it by \<open>1024\<^sup>2\<close>; the model takes that
  number of megabytes as the constructor's third argument.
\<close>

definition BOOT_SIZE :: int where
  "BOOT_SIZE = 512"

definition SWAP_SIZE :: int where
  "SWAP_SIZE = 1024"

record partitioning =
  device :: string
  root_partition_size :: int
  total_disk_size :: int
  remaining_size :: int

definition has_separate_home_partition :: "partitioning \<Rightarrow> bool" where
  "has_separate_home_partition p = (root_partition_size p > 0)"

definition Partitioning_init :: "string \<Rightarrow> int \<Rightarrow> int \<Rightarrow> partitioning" where
  "Partitioning_init dev root disk_size =
     (let p = \<lparr>device = dev, root_partition_size = root, total_disk_size = disk_size,
                remaining_size = disk_size - (BOOT_SIZE + SWAP_SIZE)\<rparr>
      in if has_separate_home_partition p
         then p\<lparr>remaining_size := remaining_size p - root_partition_size p\<rparr>
         else p)"

definition create_partition :: "partitioning \<Rightarrow> string \<Rightarrow> int \<Rightarrow> int \<Rightarrow> event list" where
  "create_partition p fstype start size' = [Mkpart (device p) fstype start (start + size')]"

definition format_partition :: "string \<Rightarrow> string \<Rightarrow> event list" where
  "format_partition partition' fstype =
     (if fstype = ''fat32'' then [Run [''mkfs.fat'', ''-F32'', partition']]
      else if fstype = ''swap'' then [Run [''mkswap'', partition']]
      else if fstype = ''ext4'' then [Run [''mkfs.ext4'', partition']]
      else [])"

text \<open>
  \<^verbatim>\<open>create_partitions(root_size, home_size=None)\<close>: the home partition is created when
  \<open>home_size\<close> is not \<open>None\<close> and formatted when \<open>home_size\<close> is truthy (not \<open>None\<close>
  and not zero).
\<close>

definition create_partitions :: "partitioning \<Rightarrow> int \<Rightarrow> int option \<Rightarrow> event list" where
  "create_partitions p root_size home_size =
     [Run [''parted'', device p, ''--script'', ''mklabel'', ''gpt'']]
     @ create_partition p ''fat32'' 0 BOOT_SIZE
     @ create_partition p ''linux-swap'' BOOT_SIZE SWAP_SIZE
     @ create_partition p ''ext4'' (BOOT_SIZE + SWAP_SIZE) root_size
     @ (case home_size of
          None \<Rightarrow> []
        | Some h \<Rightarrow> create_partition p ''ext4'' (BOOT_SIZE + SWAP_SIZE + root_size) h)
     @ format_partition (device p @ ''p1'') ''fat32''
     @ format_partition (device p @ ''p2'') ''swap''
     @ format_partition (device p @ ''p3'') ''ext4''
     @ (case home_size of
          None \<Rightarrow> []
        | Some h \<Rightarrow> if h \<noteq> 0 then format_partition (device p @ ''p4'') ''ext4'' else [])"

text \<open>
  \<^verbatim>\<open>apply()\<close>. The test \<^verbatim>\<open>if self.root_partition_size and ...\<close> is Python truthiness: an
  integer is true when it is not zero. The result pairs the outcome with the events
  issued up to the return or the raise.
\<close>

definition too_large_msg :: string where
  "too_large_msg = ''Root partition size is too large for the available space.''"

definition Partitioning_apply :: "partitioning \<Rightarrow> (pyexn + unit) \<times> event list" where
  "Partitioning_apply p =
     (if root_partition_size p \<noteq> 0 \<and> root_partition_size p \<ge> remaining_size p
      then (Inl (ValueError too_large_msg), [])
      else
        let root_and_home_size =
              (if \<not> has_separate_home_partition p then remaining_size p
               else root_partition_size p);
            home_size =
              (if has_separate_home_partition p
               then Some (remaining_size p - root_partition_size p)
               else None)
        in (Inr (), create_partitions p root_and_home_size home_size))"

definition Partitioning_mount :: "partitioning \<Rightarrow> event list" where
  "Partitioning_mount p =
     [Run [''mount'', device p @ ''p3'', ''/mnt'']]
     @ (if has_separate_home_partition p
        then [Run [''mkdir'', ''-p'', ''/mnt/home''],
              Run [''mount'', device p @ ''p4'', ''/mnt/home'']]
        else [])
     @ [Run [''mkdir'', ''-p'', ''/mnt/boot''],
        Run [''mount'', device p @ ''p1'', ''/mnt/boot''],
        Run [''swapon'', device p @ ''p2'']]"

subsection \<open>The layout a run of \<open>apply\<close> creates\<close>

text \<open>
  The layout is read off the trace: one entry \<open>(fstype, start, stop)\<close> per \<open>Mkpart\<close>
  event, in the order issued. A partition occupies the half-open range \<open>[start, stop)\<close>.
\<close>

fun layout :: "event list \<Rightarrow> (string \<times> int \<times> int) list" where
  "layout [] = []"
| "layout (Mkpart dev fstype start stop # es) = (fstype, start, stop) # layout es"
| "layout (e # es) = layout es"

definition part_size :: "string \<times> int \<times> int \<Rightarrow> int" where
  "part_size x = (case x of (fstype, start, stop) \<Rightarrow> stop - start)"

definition overlaps :: "string \<times> int \<times> int \<Rightarrow> string \<times> int \<times> int \<Rightarrow> bool" where
  "overlaps x y =
     (case x of (f1, s1, e1) \<Rightarrow> case y of (f2, s2, e2) \<Rightarrow> max s1 s2 < min e1 e2)"

fun pairwise_disjoint :: "(string \<times> int \<times> int) list \<Rightarrow> bool" where
  "pairwise_disjoint [] = True"
| "pairwise_disjoint (x # xs) = (list_all (\<lambda>y. \<not> overlaps x y) xs \<and> pairwise_disjoint xs)"

fun contiguous_from :: "int \<Rightarrow> (string \<times> int \<times> int) list \<Rightarrow> bool" where
  "contiguous_from pos [] = True"
| "contiguous_from pos ((fstype, start, stop) # xs) = (start = pos \<and> contiguous_from stop xs)"

definition creates_partition :: "event \<Rightarrow> bool" where
  "creates_partition e = (case e of Mkpart dev fstype start stop \<Rightarrow> True | _ \<Rightarrow> False)"


section \<open>Python strings and values\<close>

text \<open>
  A line of input is a \<^typ>\<open>string\<close>; its characters stand for the code points 0 to 255
  (ASCII and Latin-1), and the string methods below are Python's on that range.
\<close>

definition isspace :: "char \<Rightarrow> bool" where
  \<comment> \<open>the characters \<^verbatim>\<open>str.strip()\<close> and \<^verbatim>\<open>str.split()\<close> treat as whitespace\<close>
  "isspace c =
     (let n = (of_char c :: nat)
      in (9 \<le> n \<and> n \<le> 13) \<or> (28 \<le> n \<and> n \<le> 32) \<or> n = 133 \<or> n = 160)"

definition strip :: "string \<Rightarrow> string" where
  "strip s = rev (dropWhile isspace (rev (dropWhile isspace s)))"

definition lower_char :: "char \<Rightarrow> char" where
  "lower_char c =
     (let n = (of_char c :: nat)
      in if (65 \<le> n \<and> n \<le> 90) \<or> (192 \<le> n \<and> n \<le> 222 \<and> n \<noteq> 215)
         then char_of (n + 32) else c)"

definition lower :: "string \<Rightarrow> string" where
  "lower s = map lower_char s"

text \<open>
  \<^verbatim>\<open>str.upper()\<close>. Three Latin-1 letters have an upper case outside the range (\<open>0xB5\<close>,
  \<open>0xFF\<close>) or of two letters (\<open>0xDF\<close>, to \<^verbatim>\<open>SS\<close>); the model leaves them as they are.
  The only use of \<open>upper\<close> is in front of a pattern of ASCII digits, \<^verbatim>\<open>.\<close>, \<^verbatim>\<open>M\<close> and
  \<^verbatim>\<open>G\<close>, which matches neither these letters nor their images.
\<close>

definition upper_char :: "char \<Rightarrow> char" where
  "upper_char c =
     (let n = (of_char c :: nat)
      in if (97 \<le> n \<and> n \<le> 122) \<or> (224 \<le> n \<and> n \<le> 254 \<and> n \<noteq> 247)
         then char_of (n - 32) else c)"

definition upper :: "string \<Rightarrow> string" where
  "upper s = map upper_char s"

definition startswith :: "string \<Rightarrow> string \<Rightarrow> bool" where
  "startswith s p = (take (length p) s = p)"

fun contains :: "string \<Rightarrow> string \<Rightarrow> bool" where
  \<comment> \<open>\<^verbatim>\<open>q in s\<close>: \<open>q\<close> occurs in \<open>s\<close> as a substring\<close>
  "contains q [] = (q = [])"
| "contains q (c # s) = (startswith (c # s) q \<or> contains q s)"

definition isdigit :: "char \<Rightarrow> bool" where
  \<comment> \<open>a decimal digit: what \<^verbatim>\<open>\d\<close> matches and \<^verbatim>\<open>int()\<close> reads\<close>
  "isdigit c = (let n = (of_char c :: nat) in 48 \<le> n \<and> n \<le> 57)"

definition isalnum_char :: "char \<Rightarrow> bool" where
  "isalnum_char c =
     (let n = (of_char c :: nat)
      in (48 \<le> n \<and> n \<le> 57) \<or> (65 \<le> n \<and> n \<le> 90) \<or> (97 \<le> n \<and> n \<le> 122)
         \<or> n = 170 \<or> n = 178 \<or> n = 179 \<or> n = 181 \<or> n = 185 \<or> n = 186
         \<or> (188 \<le> n \<and> n \<le> 190) \<or> (192 \<le> n \<and> n \<le> 214)
         \<or> (216 \<le> n \<and> n \<le> 246) \<or> (248 \<le> n \<and> n \<le> 255))"

definition isalnum :: "string \<Rightarrow> bool" where
  \<comment> \<open>\<^verbatim>\<open>str.isalnum()\<close>: at least one character, all of them alphanumeric\<close>
  "isalnum s = (s \<noteq> [] \<and> list_all isalnum_char s)"

fun split_ws_aux :: "string \<Rightarrow> string \<Rightarrow> string list" where
  "split_ws_aux cur [] = (if cur = [] then [] else [cur])"
| "split_ws_aux cur (c # cs) =
     (if isspace c then (if cur = [] then [] else [cur]) @ split_ws_aux [] cs
      else split_ws_aux (cur @ [c]) cs)"

definition split_ws :: "string \<Rightarrow> string list" where
  \<comment> \<open>\<^verbatim>\<open>s.split()\<close>: the maximal runs of non-whitespace\<close>
  "split_ws s = split_ws_aux [] s"

fun split_on_aux :: "char \<Rightarrow> string \<Rightarrow> string \<Rightarrow> string list" where
  "split_on_aux sep cur [] = [cur]"
| "split_on_aux sep cur (c # cs) =
     (if c = sep then cur # split_on_aux sep [] cs else split_on_aux sep (cur @ [c]) cs)"

definition split_on :: "char \<Rightarrow> string \<Rightarrow> string list" where
  \<comment> \<open>\<^verbatim>\<open>s.split(sep)\<close> for a separator of one character: never empty\<close>
  "split_on sep s = split_on_aux sep [] s"

definition replace_char :: "char \<Rightarrow> char \<Rightarrow> string \<Rightarrow> string" where
  "replace_char a b s = map (\<lambda>c. if c = a then b else c) s"

fun digits_value :: "nat \<Rightarrow> string \<Rightarrow> nat" where
  \<comment> \<open>the number a string of decimal digits denotes, most significant digit first\<close>
  "digits_value acc [] = acc"
| "digits_value acc (c # cs) = digits_value (10 * acc + (of_char c - 48)) cs"

fun str_nat :: "nat \<Rightarrow> string" where
  "str_nat n = (if n < 10 then [char_of (48 + n)] else str_nat (n div 10) @ [char_of (48 + n mod 10)])"

declare str_nat.simps [simp del]

definition str_int :: "int \<Rightarrow> string" where
  \<comment> \<open>\<^verbatim>\<open>str(i)\<close>\<close>
  "str_int i = (if i < 0 then ''-'' @ str_nat (nat (- i)) else str_nat (nat i))"

text \<open>
  The values the prompts pass around. Python is dynamically typed and \<^verbatim>\<open>ask\<close> returns
  either the line read or whatever its validator returned, so the model needs the
  union: booleans, integers, strings and \<^verbatim>\<open>None\<close>.
\<close>

datatype pyval = PBool bool | PInt int | PStr string | PNone

definition truthy :: "pyval \<Rightarrow> bool" where
  "truthy v = (case v of PBool b \<Rightarrow> b | PInt n \<Rightarrow> n \<noteq> 0 | PStr s \<Rightarrow> s \<noteq> [] | PNone \<Rightarrow> False)"

definition isinstance_str :: "pyval \<Rightarrow> bool" where
  "isinstance_str v = (case v of PStr s \<Rightarrow> True | _ \<Rightarrow> False)"

definition isinstance_int :: "pyval \<Rightarrow> bool" where
  \<comment> \<open>\<^verbatim>\<open>isinstance(v, int)\<close>: in Python \<^verbatim>\<open>bool\<close> is a subclass of \<^verbatim>\<open>int\<close>\<close>
  "isinstance_int v = (case v of PInt n \<Rightarrow> True | PBool b \<Rightarrow> True | _ \<Rightarrow> False)"

definition py_str :: "pyval \<Rightarrow> string" where
  \<comment> \<open>\<^verbatim>\<open>str(v)\<close>, as an f-string formats a value\<close>
  "py_str v = (case v of PBool b \<Rightarrow> (if b then ''True'' else ''False'')
                | PInt n \<Rightarrow> str_int n | PStr s \<Rightarrow> s | PNone \<Rightarrow> ''None'')"

text \<open>
  \<^verbatim>\<open>int(s)\<close> for a string: surrounding whitespace is dropped, then an optional sign and
  a non-empty run of decimal digits, in which single underscores may separate digits.
  Anything else raises \<^verbatim>\<open>ValueError\<close> (\<open>None\<close> here). The whitespace \<^verbatim>\<open>int\<close> drops is
  not quite that of \<^verbatim>\<open>strip\<close>: the separators \<open>0x1C\<close> to \<open>0x1F\<close> are not part of it.
  (The interpreter's cap on the length of a decimal literal, where it has one, is
  not modelled.)
\<close>

definition int_space :: "char \<Rightarrow> bool" where
  "int_space c =
     (let n = (of_char c :: nat) in (9 \<le> n \<and> n \<le> 13) \<or> n = 32 \<or> n = 133 \<or> n = 160)"

fun int_body :: "bool \<Rightarrow> string \<Rightarrow> string option" where
  \<comment> \<open>the digits of a literal, underscores removed; the flag says that the previous
      character was a digit\<close>
  "int_body prev [] = (if prev then Some [] else None)"
| "int_body prev (c # cs) =
     (if isdigit c then map_option ((#) c) (int_body True cs)
      else if c = CHR ''_'' \<and> prev then int_body False cs
      else None)"

definition py_int :: "string \<Rightarrow> int option" where
  "py_int s =
     (let t = rev (dropWhile int_space (rev (dropWhile int_space s)))
      in case t of
           [] \<Rightarrow> None
         | c # cs \<Rightarrow>
             if c = CHR ''-'' then map_option (\<lambda>ds. - int (digits_value 0 ds)) (int_body False cs)
             else if c = CHR ''+'' then map_option (\<lambda>ds. int (digits_value 0 ds)) (int_body False cs)
             else map_option (\<lambda>ds. int (digits_value 0 ds)) (int_body False t))"


section \<open>The prompts of \<open>InstallerTextWizard\<close>\<close>

text \<open>
  Standard input is the list of lines still to be read. \<^verbatim>\<open>input(prompt)\<close> takes the
  first one, or raises \<^verbatim>\<open>EOFError\<close> when none is left; every loop of the wizard reads
  a line in each round, so each of them is a recursion on this list. A wizard function
  returns its outcome, the lines left, and the events of the call.
\<close>

type_synonym 'a result = "(pyexn + 'a) \<times> string list \<times> event list"

definition bind :: "'a result \<Rightarrow> ('a \<Rightarrow> string list \<Rightarrow> 'b result) \<Rightarrow> 'b result" where
  \<comment> \<open>sequencing: an exception of the first step ends the call\<close>
  "bind m f =
     (case m of
        (Inl e, inp, evs) \<Rightarrow> (Inl e, inp, evs)
      | (Inr x, inp, evs) \<Rightarrow> (case f x inp of (r, inp', evs') \<Rightarrow> (r, inp', evs @ evs')))"

definition without_input :: "(pyexn + 'a) \<times> event list \<Rightarrow> string list \<Rightarrow> 'a result" where
  \<comment> \<open>a step that reads nothing\<close>
  "without_input m inp = (fst m, inp, snd m)"

definition emit :: "event list \<Rightarrow> 'a result \<Rightarrow> 'a result" where
  \<comment> \<open>events that happen before a step\<close>
  "emit evs m = (case m of (r, inp, evs') \<Rightarrow> (r, inp, evs @ evs'))"

definition VALID_UNIX :: "string \<Rightarrow> (pyexn + pyval) \<times> event list" where
  \<comment> \<open>\<^verbatim>\<open>lambda x: x.isalnum() and len(x) > 0\<close>\<close>
  "VALID_UNIX x = (Inr (if isalnum x then PBool (length x > 0) else PBool False), [])"

definition password_check :: "string \<Rightarrow> (pyexn + pyval) \<times> event list" where
  \<comment> \<open>\<^verbatim>\<open>lambda x: bool(x.strip())\<close>\<close>
  "password_check x = (Inr (PBool (strip x \<noteq> [])), [])"

text \<open>
  \<^verbatim>\<open>ask(prompt, check=None)\<close>. A validator returns a value and may print (\<^verbatim>\<open>size_filter\<close>
  does) or raise. The line is accepted when the validator's result \<^verbatim>\<open>is True\<close>, or is an
  instance of \<^verbatim>\<open>str\<close> or of \<^verbatim>\<open>int\<close>; then \<^verbatim>\<open>ask\<close> returns the line in the first case and
  the result itself otherwise. Only another result prints \<^verbatim>\<open>Invalid input\<close> and asks
  again.
\<close>

fun ask :: "string \<Rightarrow> (string \<Rightarrow> (pyexn + pyval) \<times> event list) option \<Rightarrow> string list
              \<Rightarrow> pyval result" where
  "ask prompt check [] = (Inl EOFError, [], [Prompt (prompt @ '': '')])"
| "ask prompt check (line # rest) =
     (case check of
        None \<Rightarrow> (Inr (PStr line), rest, [Prompt (prompt @ '': '')])
      | Some chk \<Rightarrow>
          (case chk line of
             (Inl e, printed) \<Rightarrow> (Inl e, rest, Prompt (prompt @ '': '') # printed)
           | (Inr result, printed) \<Rightarrow>
               if result = PBool True \<or> isinstance_str result \<or> isinstance_int result
               then (Inr (if result = PBool True then PStr line else result), rest,
                     Prompt (prompt @ '': '') # printed)
               else emit (Prompt (prompt @ '': '') # printed @ [Print ''Invalid input''])
                      (ask prompt check rest)))"

fun ask_yn :: "string \<Rightarrow> string list \<Rightarrow> bool result" where
  "ask_yn prompt [] = (Inl EOFError, [], [Prompt prompt])"
| "ask_yn prompt (line # rest) =
     (Inr (\<not> startswith (lower (strip line)) ''n''), rest, [Prompt prompt])"

subsection \<open>The size prompt\<close>

text \<open>
  \<^verbatim>\<open>size_filter\<close> matches \<^verbatim>\<open>^(\d+(?:\.\d+)?)([MG]?)$\<close> against the stripped, upper-cased
  line. \<open>match_size\<close> is that match: the digits before the point, the digits after it
  (\<open>None\<close> when the optional group did not take part) and the unit. The string is
  stripped, so \<^verbatim>\<open>$\<close> can only match at its very end.
\<close>

definition match_size :: "string \<Rightarrow> (string \<times> string option \<times> string) option" where
  "match_size v =
     (let ip = takeWhile isdigit v; r1 = dropWhile isdigit v
      in if ip = [] then None
         else case r1 of
                [] \<Rightarrow> Some (ip, None, [])
              | c # r2 \<Rightarrow>
                  if c = CHR ''.'' then
                    (let fp = takeWhile isdigit r2; r3 = dropWhile isdigit r2
                     in if fp = [] then None
                        else if r3 = [] \<or> r3 = ''M'' \<or> r3 = ''G'' then Some (ip, Some fp, r3)
                        else None)
                  else if r1 = ''M'' \<or> r1 = ''G'' then Some (ip, None, r1)
                  else None)"

text \<open>
  The language of the pattern, spelled out: \<open>v\<close> is a non-empty run of digits, then
  possibly a point and another non-empty run of digits, then nothing, \<^verbatim>\<open>M\<close> or \<^verbatim>\<open>G\<close>.
\<close>

definition matches_size_pattern :: "string \<Rightarrow> string \<Rightarrow> string option \<Rightarrow> string \<Rightarrow> bool" where
  "matches_size_pattern v ip fp unit =
     (ip \<noteq> [] \<and> list_all isdigit ip
      \<and> (case fp of None \<Rightarrow> True | Some ds \<Rightarrow> ds \<noteq> [] \<and> list_all isdigit ds)
      \<and> (unit = [] \<or> unit = ''M'' \<or> unit = ''G'')
      \<and> v = ip @ (case fp of None \<Rightarrow> [] | Some ds \<Rightarrow> CHR ''.'' # ds) @ unit)"

text \<open>
  The number is then read with \<^verbatim>\<open>float()\<close>, multiplied by 1024 for the unit \<^verbatim>\<open>G\<close>, and
  cut with \<^verbatim>\<open>int()\<close>. A Python float is an IEEE 754 double. The values that occur here
  are not negative; \<open>Finite m e\<close> is the double \<open>m * 2\<^sup>e\<close> and \<open>Infinity\<close> is \<^verbatim>\<open>inf\<close>.

  \<open>float_of_ratio p q\<close> is the double nearest to \<open>p / q\<close>, ties to the even mantissa, as
  \<^verbatim>\<open>float()\<close> reads a decimal numeral: with \<open>2\<^sup>L \<le> p / q < 2\<^sup>L\<^sup>+\<^sup>1\<close>, the mantissa is
  \<open>p / q\<close> in units of \<open>2\<^sup>e\<close>, \<open>e = max (L - 52) (-1074)\<close> (53 bits, or fewer for a
  subnormal), rounded to an integer; a result of \<open>2\<^sup>1\<^sup>0\<^sup>2\<^sup>4\<close> or more is \<^verbatim>\<open>inf\<close>.
\<close>

datatype pyfloat = Finite nat int | Infinity

fun bit_length :: "nat \<Rightarrow> nat" where
  "bit_length n = (if n = 0 then 0 else Suc (bit_length (n div 2)))"

declare bit_length.simps [simp del]

definition round_half_even :: "nat \<Rightarrow> nat \<Rightarrow> nat" where
  \<comment> \<open>the integer nearest to \<open>p / q\<close>, the even one of two equally near\<close>
  "round_half_even p q =
     (let f = p div q; r = p mod q
      in if 2 * r < q then f
         else if q < 2 * r then f + 1
         else if even f then f else f + 1)"

definition float_of_ratio :: "nat \<Rightarrow> nat \<Rightarrow> pyfloat" where
  "float_of_ratio p q =
     (if p = 0 then Finite 0 0
      else
        let a = bit_length p; b = bit_length q;
            L = (if q * 2 ^ a \<le> p * 2 ^ b then int a - int b else int a - int b - 1);
            e = max (L - 52) (- 1074);
            m = (if 0 \<le> e then round_half_even p (q * 2 ^ nat e)
                 else round_half_even (p * 2 ^ nat (- e)) q)
        in if 0 \<le> e \<and> 2 ^ 1024 \<le> m * 2 ^ nat e then Infinity else Finite m e)"

definition decimal_ratio :: "string \<Rightarrow> string option \<Rightarrow> nat \<times> nat" where
  \<comment> \<open>the numeral \<open>ip\<close> or \<open>ip.fp\<close> as a fraction: all its digits over a power of ten\<close>
  "decimal_ratio ip fp =
     (case fp of
        None \<Rightarrow> (digits_value 0 ip, 1)
      | Some ds \<Rightarrow> (digits_value 0 (ip @ ds), 10 ^ length ds))"

definition float_of_decimal :: "string \<Rightarrow> string option \<Rightarrow> pyfloat" where
  \<comment> \<open>\<^verbatim>\<open>float(num)\<close> for the numeral \<open>ip\<close> or \<open>ip.fp\<close>\<close>
  "float_of_decimal ip fp = (case decimal_ratio ip fp of (p, q) \<Rightarrow> float_of_ratio p q)"

definition float_times_1024 :: "pyfloat \<Rightarrow> pyfloat" where
  \<comment> \<open>\<^verbatim>\<open>num * 1024\<close>: scaling by a power of two is exact unless it overflows\<close>
  "float_times_1024 x =
     (case x of
        Infinity \<Rightarrow> Infinity
      | Finite m e \<Rightarrow>
          if 0 \<le> e + 10 \<and> 2 ^ 1024 \<le> m * 2 ^ nat (e + 10) then Infinity
          else Finite m (e + 10))"

definition int_of_float :: "pyfloat \<Rightarrow> pyexn + int" where
  \<comment> \<open>\<^verbatim>\<open>int(x)\<close>: truncation; \<^verbatim>\<open>int(inf)\<close> raises\<close>
  "int_of_float x =
     (case x of
        Infinity \<Rightarrow> Inl (OverflowError ''cannot convert float infinity to integer'')
      | Finite m e \<Rightarrow>
          Inr (if 0 \<le> e then int m * 2 ^ nat e else int m div 2 ^ nat (- e)))"

definition size_help :: string where
  "size_help =
     ''Please enter a number followed by optional M or G (e.g., 512M, 1G, or just 512)''"

definition size_filter :: "string \<Rightarrow> (pyexn + pyval) \<times> event list" where
  "size_filter line =
     (let v = upper (strip line)
      in case match_size v of
           None \<Rightarrow> (Inr (PBool False), [Print size_help])
         | Some (ip, fp, unit) \<Rightarrow>
             (let num = float_of_decimal ip fp
              in case int_of_float (if unit = ''G'' then float_times_1024 num else num) of
                   Inl e \<Rightarrow> (Inl e, [])
                 | Inr n \<Rightarrow> (Inr (PInt n), [])))"

definition ask_size :: "string \<Rightarrow> string list \<Rightarrow> pyval result" where
  "ask_size prompt inp = ask prompt (Some size_filter) inp"

subsection \<open>The menu\<close>

text \<open>
  \<^verbatim>\<open>choose(prompt, items)\<close>. The parameter is annotated \<^verbatim>\<open>list[str]\<close>, but one caller
  passes a \<^verbatim>\<open>set\<close>: a \<open>pool\<close> is either, a set being given by the order in which
  iterating over it yields its elements. Both can be enumerated and measured; only a
  list can be indexed, \<^verbatim>\<open>items[index]\<close> on a set raises \<^verbatim>\<open>TypeError\<close>. The matches of
  a search are built by a list comprehension, so the pool of the recursive call is a
  list.
\<close>

datatype pool = PyList "string list" | PySet "string list"

fun elements :: "pool \<Rightarrow> string list" where
  "elements (PyList xs) = xs"
| "elements (PySet xs) = xs"

definition choose_prompt :: "string \<Rightarrow> pool \<Rightarrow> event" where
  "choose_prompt prompt items =
     Prompt (prompt @ '' (1-'' @ str_nat (length (elements items)) @ '' or /search): '')"

fun choose' :: "string \<Rightarrow> pool \<Rightarrow> string list \<Rightarrow> string result" where
  "choose' prompt items [] = (Inl EOFError, [], [choose_prompt prompt items])"
| "choose' prompt items (choice # rest) =
     (if startswith choice ''/'' then
        (let query = lower (tl choice);
             matches = filter (\<lambda>item. contains query (lower item)) (elements items)
         in if matches \<noteq> []
            then emit [choose_prompt prompt items] (choose' prompt (PyList matches) rest)
            else emit [choose_prompt prompt items, Print ''No matches found'']
                   (choose' prompt items rest))
      else
        (case py_int choice of
           None \<Rightarrow>
             emit [choose_prompt prompt items,
                   Print ''Invalid input, please enter a number or a search query'']
               (choose' prompt items rest)
         | Some n \<Rightarrow>
             (let index = n - 1
              in if 0 \<le> index \<and> index < int (length (elements items))
                 then (case items of
                         PyList xs \<Rightarrow> (Inr (xs ! nat index), rest, [choose_prompt prompt items])
                       | PySet xs \<Rightarrow>
                           (Inl (TypeError ''set object is not subscriptable''), rest,
                            [choose_prompt prompt items]))
                 else emit [choose_prompt prompt items,
                            Print (''Please choose a number between 1 and ''
                                   @ str_nat (length (elements items)))]
                        (choose' prompt items rest))))"


section \<open>The wizard\<close>

record user =
  username :: pyval
  password :: pyval
  sudo :: bool

record general =
  timezone :: string
  hostname :: pyval
  users :: "user list"

record post_install =
  packages :: "string list"
  scripts :: "string list"

record installer =
  general :: general
  partitioning :: partitioning
  post_install :: post_install

record env =
  available_timezones :: "string list"
  lsblk_listing :: string
  disk_bytes :: "string \<Rightarrow> int"
  part_uuid :: "string \<Rightarrow> string"

lemma bind_cong [fundef_cong]:
  assumes "m = m'"
    and "\<And>x inp evs. m' = (Inr x, inp, evs) \<Longrightarrow> f x inp = f' x inp"
  shows "bind m f = bind m' f'"
  using assms by (auto simp add: bind_def split: prod.splits sum.splits)

lemma emit_cong [fundef_cong]:
  assumes "evs = evs'" and "m = m'"
  shows "emit evs m = emit evs' m'"
  using assms by simp

lemma fst_emit [simp]: "fst (emit evs m) = fst m"
  by (simp add: emit_def split: prod.split)

lemma rest_emit [simp]: "fst (snd (emit evs m)) = fst (snd m)"
  by (simp add: emit_def split: prod.split)

lemma events_emit [simp]: "snd (snd (emit evs m)) = evs @ snd (snd m)"
  by (simp add: emit_def split: prod.split)

lemma ask_rest:
  "fst (ask prompt check inp) = Inr v \<Longrightarrow> length (fst (snd (ask prompt check inp))) < length inp"
proof (induction inp)
  case Nil
  then show ?case by simp
next
  case (Cons line rest)
  then show ?case
    by (cases check) (auto split: prod.splits sum.splits if_splits)
qed

lemma ask_consumes:
  "ask prompt check inp = (Inr v, inp', evs) \<Longrightarrow> length inp' < length inp"
  using ask_rest [of prompt check inp v] by simp

lemma ask_yn_consumes:
  "ask_yn prompt inp = (Inr v, inp', evs) \<Longrightarrow> length inp' < length inp"
  by (cases inp) auto

lemma choose_rest:
  "fst (choose' prompt items inp) = Inr v
     \<Longrightarrow> length (fst (snd (choose' prompt items inp))) < length inp"
proof (induction inp arbitrary: items)
  case Nil
  then show ?case by simp
next
  case (Cons choice rest)
  show ?case
  proof (cases "startswith choice ''/''")
    case True
    with Cons show ?thesis
      by (simp add: Let_def split: if_splits) fastforce+
  next
    case False
    with Cons show ?thesis
      by (cases "py_int choice"; cases items) (simp_all add: Let_def split: if_splits, fastforce+)
  qed
qed

lemma choose_consumes:
  "choose' prompt items inp = (Inr v, inp', evs) \<Longrightarrow> length inp' < length inp"
  using choose_rest [of prompt items inp v] by simp

definition valid_username :: "pyval \<Rightarrow> bool" where
  \<comment> \<open>a string that is alphanumeric (and so not empty)\<close>
  "valid_username v = (case v of PStr s \<Rightarrow> isalnum s | _ \<Rightarrow> False)"

definition collect_user :: "string list \<Rightarrow> user option result" where
  "collect_user inp =
     bind (ask ''Username'' (Some VALID_UNIX) inp) (\<lambda>name inp.
       if \<not> truthy name then (Inr None, inp, [])
       else
         bind (ask ''Password'' (Some password_check) inp) (\<lambda>pw inp.
           bind (ask_yn (''Can '' @ py_str name @ '' use sudo? (Y/n) '') inp) (\<lambda>su inp.
             (Inr (Some \<lparr>username = name, password = pw, sudo = su\<rparr>), inp, []))))"

lemma bind_Inr_iff:
  "bind m f = (Inr v, inp', evs) \<longleftrightarrow>
     (\<exists>x inp1 evs1 evs2. m = (Inr x, inp1, evs1) \<and> f x inp1 = (Inr v, inp', evs2)
        \<and> evs = evs1 @ evs2)"
  by (auto simp add: bind_def split: prod.splits sum.splits)

lemma collect_user_consumes:
  "collect_user inp = (Inr v, inp', evs) \<Longrightarrow> length inp' < length inp"
  by (auto simp add: collect_user_def bind_Inr_iff split: if_splits
        dest!: ask_consumes ask_yn_consumes)

function collect_users_loop :: "user list \<Rightarrow> string list \<Rightarrow> user list result" where
  "collect_users_loop us inp =
     bind (collect_user inp) (\<lambda>u inp.
       case u of
         None \<Rightarrow> (Inr us, inp, [])
       | Some u' \<Rightarrow> collect_users_loop (us @ [u']) inp)"
  by pat_completeness auto
termination
  by (relation "measure (\<lambda>(us, inp). length inp)") (auto dest: collect_user_consumes)

declare collect_users_loop.simps [simp del]

definition collect_users :: "string list \<Rightarrow> user list result" where
  "collect_users inp = collect_users_loop [] inp"


lemma collect_users_loop_consumes:
  "collect_users_loop us inp = (Inr v, inp', evs) \<Longrightarrow> length inp' < length inp"
proof (induction us inp arbitrary: evs rule: collect_users_loop.induct)
  case (1 us inp)
  from "1.prems" obtain u inp1 evs1 evs2 where
    a: "collect_user inp = (Inr u, inp1, evs1)"
    and b: "(case u of None \<Rightarrow> (Inr us, inp1, [])
             | Some u' \<Rightarrow> collect_users_loop (us @ [u']) inp1) = (Inr v, inp', evs2)"
    by (subst (asm) collect_users_loop.simps) (auto simp add: bind_Inr_iff)
  have 1: "length inp1 < length inp" using a by (rule collect_user_consumes)
  show ?case
  proof (cases u)
    case None
    with b 1 show ?thesis by simp
  next
    case (Some u')
    with b have "collect_users_loop (us @ [u']) inp1 = (Inr v, inp', evs2)" by simp
    with "1.IH" [OF a Some] have "length inp' < length inp1" by simp
    with 1 show ?thesis by simp
  qed
qed

lemma collect_users_consumes:
  "collect_users inp = (Inr v, inp', evs) \<Longrightarrow> length inp' < length inp"
  unfolding collect_users_def by (rule collect_users_loop_consumes)

definition newline :: string where
  "newline = [CHR 0x0A]"

definition tab :: string where
  "tab = [CHR 0x09]"

function collect_general :: "env \<Rightarrow> string list \<Rightarrow> general result"
  and review_general :: "env \<Rightarrow> pyval \<Rightarrow> string \<Rightarrow> user list \<Rightarrow> string list \<Rightarrow> general result"
where
  "collect_general env inp =
     bind (ask ''Hostname'' (Some VALID_UNIX) inp) (\<lambda>host inp.
       bind (choose' ''Timezone'' (PySet (available_timezones env)) inp) (\<lambda>tz inp.
         bind (collect_users inp) (\<lambda>us inp.
           review_general env host tz us inp)))"
| "review_general env host tz us inp =
     bind (ask_yn (newline @ ''Is this ok? (Y/n) '') inp) (\<lambda>ok inp.
       if ok then (Inr \<lparr>timezone = tz, hostname = host, users = us\<rparr>, inp, [])
       else collect_general env inp)"
  by pat_completeness auto
termination
  by (relation "measure (\<lambda>x. case x of Inl (env, inp) \<Rightarrow> length inp
                                   | Inr (env, host, tz, us, inp) \<Rightarrow> length inp)")
     (auto dest!: ask_consumes ask_yn_consumes choose_consumes collect_users_consumes)

declare collect_general.simps [simp del] review_general.simps [simp del]

text \<open>
  \<^verbatim>\<open>get_disk_size()\<close> and the constructor \<^verbatim>\<open>Partitioning(device, root_partition_size)\<close> as
  the wizard calls it. The root size is whatever \<^verbatim>\<open>ask_size\<close> returned: an integer, or
  a boolean, which Python compares and subtracts as 0 or 1; any other value makes the
  comparison \<^verbatim>\<open>root_partition_size > 0\<close> raise \<^verbatim>\<open>TypeError\<close>, after the size query.
\<close>

definition get_disk_size :: "env \<Rightarrow> string \<Rightarrow> int" where
  "get_disk_size env dev = disk_bytes env dev div (1024 ^ 2)"

definition Partitioning_new :: "env \<Rightarrow> string \<Rightarrow> pyval \<Rightarrow> (pyexn + partitioning) \<times> event list" where
  "Partitioning_new env dev root =
     (case root of
        PInt n \<Rightarrow> Inr (Partitioning_init dev n (get_disk_size env dev))
      | PBool b \<Rightarrow> Inr (Partitioning_init dev (if b then 1 else 0) (get_disk_size env dev))
      | _ \<Rightarrow> Inl (TypeError ''> not supported''),
      [Run [''lsblk'', ''-b'', ''-n'', ''-d'', ''-o'', ''SIZE'', dev]])"

function collect_partitioning :: "env \<Rightarrow> string list \<Rightarrow> partitioning result"
  and review_partitioning :: "env \<Rightarrow> string \<Rightarrow> pyval \<Rightarrow> string list \<Rightarrow> partitioning result"
where
  "collect_partitioning env inp =
     emit [Run [''lsblk'', ''-d'', ''-o'', ''NAME,SIZE'']]
       (let devices = filter (\<lambda>x. x \<noteq> []) (tl (split_on (CHR 0x0A) (strip (lsblk_listing env))))
        in bind (choose' ''Device'' (PyList devices) inp) (\<lambda>chosen inp.
             case split_ws chosen of
               [] \<Rightarrow> (Inl (IndexError ''list index out of range''), inp, [])
             | first # others \<Rightarrow>
                 (let dev = ''/dev/'' @ first
                  in bind (ask_yn ''Do you want a separate /home partition? (Y/n) '' inp) (\<lambda>separate inp.
                       if \<not> separate then review_partitioning env dev (PInt 0) inp
                       else
                         bind (ask_size ''Size of the root partition (rest will be given to /home)'' inp)
                           (\<lambda>root inp. review_partitioning env dev root inp)))))"
| "review_partitioning env dev root inp =
     bind (ask_yn ''Is this ok? (Y/n) '' inp) (\<lambda>ok inp.
       if ok then without_input (Partitioning_new env dev root) inp
       else collect_partitioning env inp)"
  by pat_completeness auto
termination
  by (relation "measure (\<lambda>x. case x of Inl (env, inp) \<Rightarrow> length inp
                                   | Inr (env, dev, root, inp) \<Rightarrow> length inp)")
     (auto simp add: ask_size_def dest!: ask_consumes ask_yn_consumes choose_consumes)

declare collect_partitioning.simps [simp del] review_partitioning.simps [simp del]

definition confirm_install :: "general \<Rightarrow> partitioning \<Rightarrow> string list \<Rightarrow> installer result" where
  "confirm_install g p inp =
     (let i = \<lparr>general = g, partitioning = p,
                post_install = \<lparr>packages = [], scripts = []\<rparr>\<rparr>
      in bind (ask_yn ''Do you want to install? (Y/n) '' inp) (\<lambda>yes inp.
           if \<not> yes then (Inl (SystemExit ''Installation aborted''), inp, [])
           else
             bind (ask_yn ''This will wipe everything. Are you sure? (Y/n) '' inp) (\<lambda>sure inp.
               if \<not> sure then (Inl (SystemExit ''Installation aborted''), inp, [])
               else (Inr i, inp, []))))"

section \<open>Installer and PostInstall\<close>

text \<open>
  The steps of \<^verbatim>\<open>Installer.install()\<close>. A step returns its outcome and its events;
  \<open>steps\<close> runs a list of them in order and stops at the first exception.
\<close>

fun steps :: "((pyexn + unit) \<times> event list) list \<Rightarrow> (pyexn + unit) \<times> event list" where
  "steps [] = (Inr (), [])"
| "steps ((Inl e, evs) # rest) = (Inl e, evs)"
| "steps ((Inr u, evs) # rest) = (case steps rest of (r, evs') \<Rightarrow> (r, evs @ evs'))"

definition pacstrap :: "(pyexn + unit) \<times> event list" where
  "pacstrap = (Inr (), [Run [''pacstrap'', ''/mnt'', ''base'', ''linux'', ''linux-firmware'', ''sudo'']])"

definition genfstab :: "(pyexn + unit) \<times> event list" where
  "genfstab = (Inr (), [RunAppend [''genfstab'', ''-U'', ''/mnt''] ''/mnt/etc/fstab''])"

definition set_hostname :: "installer \<Rightarrow> (pyexn + unit) \<times> event list" where
  \<comment> \<open>\<^verbatim>\<open>f.write(x)\<close> raises \<^verbatim>\<open>TypeError\<close> unless \<open>x\<close> is a string; the file is open by then\<close>
  "set_hostname i =
     (case hostname (general i) of
        PStr h \<Rightarrow> (Inr (), [FileWrite ''/mnt/etc/hostname'' ''w'' h])
      | _ \<Rightarrow> (Inl (TypeError ''write() argument must be str''),
              [FileWrite ''/mnt/etc/hostname'' ''w'' []]))"

fun add_users_loop :: "user list \<Rightarrow> (pyexn + unit) \<times> event list" where
  \<comment> \<open>an argument of a command must be a string\<close>
  "add_users_loop [] = (Inr (), [])"
| "add_users_loop (u # us) =
     (case username u of
        PStr name \<Rightarrow>
          steps [(Inr (), [Run [''arch-chroot'', ''/mnt'', ''useradd'', ''-m'', ''-G'', ''wheel'', name],
                           RunInput [''arch-chroot'', ''/mnt'', ''chpasswd'']
                             (name @ '':'' @ py_str (password u))]),
                 add_users_loop us]
      | _ \<Rightarrow> (Inl (TypeError ''expected str, bytes or os.PathLike object''), []))"

definition add_users :: "installer \<Rightarrow> (pyexn + unit) \<times> event list" where
  "add_users i = add_users_loop (users (general i))"

definition edit_sudoers :: "(pyexn + unit) \<times> event list" where
  "edit_sudoers =
     (Inr (), [FileWrite ''/mnt/etc/sudoers'' ''a'' (newline @ ''%wheel ALL=(ALL:ALL) ALL'' @ newline)])"

definition lock_root :: "(pyexn + unit) \<times> event list" where
  "lock_root = (Inr (), [Run [''arch-chroot'', ''/mnt'', ''passwd'', ''-l'', ''root'']])"

definition make_hosts :: "installer \<Rightarrow> (pyexn + unit) \<times> event list" where
  "make_hosts i =
     (let h = py_str (hostname (general i))
      in (Inr (), [FileWrite ''/mnt/etc/hosts'' ''w''
                     (''127.0.0.1'' @ tab @ ''localhost'' @ newline
                      @ ''::1'' @ tab @ ''localhost'' @ newline
                      @ ''127.0.1.1'' @ tab @ h @ ''.localdomain'' @ tab @ h @ newline)]))"

definition setup_time :: "installer \<Rightarrow> (pyexn + unit) \<times> event list" where
  "setup_time i =
     (let path = ''/usr/share/zoneinfo/'' @ replace_char (CHR ''_'') (CHR ''/'') (timezone (general i))
      in (Inr (), [Run [''ln'', ''-sf'', path, ''/mnt/etc/localtime''],
                   Run [''arch-chroot'', ''/mnt'', ''hwclock'', ''--systohc'']]))"

definition locale_gen :: "(pyexn + unit) \<times> event list" where
  "locale_gen =
     (Inr (), [FileWrite ''/mnt/etc/locale.gen'' ''a'' (''en_US.UTF-8 UTF-8'' @ newline),
               Run [''arch-chroot'', ''/mnt'', ''locale-gen''],
               FileWrite ''/mnt/etc/locale.conf'' ''a'' (newline @ ''LANG=en_US.UTF-8'' @ newline)])"

definition BOOT_ENTRY_TITLE :: string where
  "BOOT_ENTRY_TITLE = ''Arch Linux''"

definition install_bootloader :: "(pyexn + unit) \<times> event list" where
  "install_bootloader = (Inr (), [Run [''arch-chroot'', ''/mnt'', ''bootctl'', ''install'']])"

definition make_loader_config :: "(pyexn + unit) \<times> event list" where
  "make_loader_config =
     (Inr (), [FileWrite ''/mnt/boot/loader/loader.conf'' ''w''
                 (''default linux'' @ newline @ ''timeout 3'' @ newline @ ''editor no'' @ newline)])"

definition make_boot_entry :: "env \<Rightarrow> installer \<Rightarrow> (pyexn + unit) \<times> event list" where
  \<comment> \<open>the entry is written around a \<^verbatim>\<open>blkid\<close> query for the root partition's PARTUUID\<close>
  "make_boot_entry env i =
     (let root_part = device (partitioning i) @ ''p3''
      in (Inr (), [Run [''blkid'', ''-s'', ''PARTUUID'', ''-o'', ''value'', root_part],
                   FileWrite ''/mnt/boot/loader/entries/linux.conf'' ''w''
                     (''title '' @ BOOT_ENTRY_TITLE @ newline
                      @ ''linux /vmlinuz-linux'' @ newline
                      @ ''initrd /initramfs-linux.img'' @ newline
                      @ ''options root=PARTUUID='' @ strip (part_uuid env root_part) @ '' rw'' @ newline)]))"

definition setup_bootloader :: "env \<Rightarrow> installer \<Rightarrow> (pyexn + unit) \<times> event list" where
  "setup_bootloader env i = steps [install_bootloader, make_loader_config, make_boot_entry env i]"

definition setup_network :: "(pyexn + unit) \<times> event list" where
  "setup_network =
     (Inr (), [Run [''arch-chroot'', ''/mnt'', ''pacman'', ''-S'', ''--noconfirm'', ''networkmanager''],
               Run [''arch-chroot'', ''/mnt'', ''systemctl'', ''enable'', ''NetworkManager'']])"

definition install_packages :: "post_install \<Rightarrow> (pyexn + unit) \<times> event list" where
  "install_packages po =
     (Inr (), [Run ([''arch-chroot'', ''/mnt'', ''pacman'', ''-S'', ''--noconfirm''] @ packages po)])"

definition download_and_run_scripts :: "post_install \<Rightarrow> (pyexn + unit) \<times> event list" where
  \<comment> \<open>with every command succeeding, the \<^verbatim>\<open>except\<close> branch is never taken\<close>
  "download_and_run_scripts po =
     (Inr (), MakeDirs ''/mnt/tmp''
              # concat (map (\<lambda>script.
                  let script_name = last (split_on (CHR ''/'') script)
                  in [Run [''curl'', ''-o'', ''/mnt/tmp/'' @ script_name, script],
                      Run [''chmod'', ''+x'', ''/mnt/tmp/'' @ script_name],
                      Run [''arch-chroot'', ''/mnt'', ''/tmp/'' @ script_name]]) (scripts po)))"

definition PostInstall_install :: "post_install \<Rightarrow> (pyexn + unit) \<times> event list" where
  "PostInstall_install po = steps [install_packages po, download_and_run_scripts po]"

definition Installer_install :: "env \<Rightarrow> installer \<Rightarrow> (pyexn + unit) \<times> event list" where
  "Installer_install env i =
     steps [Partitioning_apply (partitioning i),
            (Inr (), Partitioning_mount (partitioning i)),
            pacstrap,
            genfstab,
            set_hostname i,
            add_users i,
            edit_sudoers,
            lock_root,
            make_hosts i,
            setup_time i,
            locale_gen,
            setup_bootloader env i,
            setup_network,
            PostInstall_install (post_install i)]"

definition run :: "env \<Rightarrow> string list \<Rightarrow> unit result" where
  "run env inp =
     bind (collect_general env inp) (\<lambda>g inp.
       bind (collect_partitioning env inp) (\<lambda>p inp.
         bind (confirm_install g p inp) (\<lambda>i inp.
           without_input (Installer_install env i) inp)))"

text \<open>
  The events that change the machine: every event but a prompt, a diagnostic, and the
  two read-only queries (\<^verbatim>\<open>lsblk\<close>, \<^verbatim>\<open>blkid\<close>).
\<close>

definition mutates :: "event \<Rightarrow> bool" where
  "mutates e =
     (case e of
        Prompt s \<Rightarrow> False
      | Print s \<Rightarrow> False
      | Run argv \<Rightarrow> \<not> (take 1 argv = [''lsblk''] \<or> take 1 argv = [''blkid''])
      | _ \<Rightarrow> True)"

definition no_mutation :: "event list \<Rightarrow> bool" where
  "no_mutation evs = list_all (\<lambda>e. \<not> mutates e) evs"

text \<open>
  A machine to run the wizard on in examples: one timezone in the catalogue, one disk
  of 40 GiB in the listing of \<^verbatim>\<open>lsblk\<close>.
\<close>

definition example_env :: env where
  "example_env =
     \<lparr>available_timezones = [''UTC''],
      lsblk_listing = ''NAME SIZE'' @ newline @ ''sda 40G'' @ newline,
      disk_bytes = (\<lambda>dev. 42949672960),
      part_uuid = (\<lambda>dev. ''0a1b2c3d-04'' @ newline)\<rparr>"


section \<open>Helper facts\<close>

lemmas partitioning_defs =
  Partitioning_apply_def Partitioning_init_def has_separate_home_partition_def
  create_partitions_def create_partition_def format_partition_def
  BOOT_SIZE_def SWAP_SIZE_def

lemma remaining_size_init:
  "remaining_size (Partitioning_init dev root disk) =
     (if 0 < root then disk - 1536 - root else disk - 1536)"
  by (simp add: partitioning_defs Let_def)

lemma root_partition_size_init:
  "root_partition_size (Partitioning_init dev root disk) = root"
  by (simp add: partitioning_defs Let_def)

lemma apply_rejected:
  assumes "root \<noteq> 0 \<and> remaining_size (Partitioning_init dev root disk) \<le> root"
  shows "Partitioning_apply (Partitioning_init dev root disk) =
           (Inl (ValueError too_large_msg), [])"
  using assms by (simp add: Partitioning_apply_def root_partition_size_init)

lemma apply_accepted:
  assumes "\<not> (root \<noteq> 0 \<and> remaining_size (Partitioning_init dev root disk) \<le> root)"
  shows "Partitioning_apply (Partitioning_init dev root disk) =
           (Inr (), create_partitions (Partitioning_init dev root disk)
                      (if 0 < root then root else disk - 1536)
                      (if 0 < root then Some (disk - 1536 - root - root) else None))"
  using assms
  by (simp add: Partitioning_apply_def root_partition_size_init remaining_size_init
        has_separate_home_partition_def Let_def)

lemma layout_create_partitions:
  "layout (create_partitions p root_size home_size) =
     [(''fat32'', 0, 512), (''linux-swap'', 512, 1536), (''ext4'', 1536, 1536 + root_size)]
     @ (case home_size of None \<Rightarrow> []
        | Some h \<Rightarrow> [(''ext4'', 1536 + root_size, 1536 + root_size + h)])"
  by (simp add: partitioning_defs split: option.split)

subsection \<open>Characters\<close>

lemma char_eq_code: "c = d \<longleftrightarrow> (of_char c :: nat) = of_char d"
  by (auto dest: injD [OF inj_of_char])

lemma code_lower_char:
  "(of_char (lower_char c) :: nat) =
     (if (65 \<le> (of_char c :: nat) \<and> (of_char c :: nat) \<le> 90)
         \<or> (192 \<le> (of_char c :: nat) \<and> (of_char c :: nat) \<le> 222 \<and> (of_char c :: nat) \<noteq> 215)
      then of_char c + 32 else of_char c)"
  by (simp add: lower_char_def Let_def)

lemma lower_char_n: "lower_char c = CHR ''n'' \<longleftrightarrow> c = CHR ''n'' \<or> c = CHR ''N''"
  by (simp add: char_eq_code code_lower_char) arith

lemma startswith_lower_n:
  "startswith (lower t) ''n'' \<longleftrightarrow> startswith t ''n'' \<or> startswith t ''N''"
  by (cases t) (auto simp add: startswith_def lower_def lower_char_n)

subsection \<open>Prompts and collection never touch the machine\<close>

definition benign :: "'a result \<Rightarrow> bool" where
  "benign r = (no_mutation (snd (snd r)) \<and> (case fst r of Inl (SystemExit m) \<Rightarrow> False | _ \<Rightarrow> True))"

lemma no_mutation_simps [simp]:
  "no_mutation []"
  "no_mutation (Prompt s # evs) = no_mutation evs"
  "no_mutation (Print s # evs) = no_mutation evs"
  "no_mutation (evs @ evs') = (no_mutation evs \<and> no_mutation evs')"
  by (simp_all add: no_mutation_def mutates_def)

lemma benign_emit:
  "no_mutation evs \<Longrightarrow> benign m \<Longrightarrow> benign (emit evs m)"
  by (simp add: benign_def)

lemma benign_bind:
  assumes "benign m" and "\<And>x inp evs. m = (Inr x, inp, evs) \<Longrightarrow> benign (f x inp)"
  shows "benign (bind m f)"
proof (cases m)
  case (fields r inp evs)
  show ?thesis
  proof (cases r)
    case (Inl e)
    with fields assms(1) show ?thesis by (simp add: bind_def benign_def)
  next
    case (Inr x)
    with fields assms(2) [of x inp evs] assms(1) show ?thesis
      by (cases "f x inp") (simp add: bind_def benign_def)
  qed
qed

lemma benign_return: "benign (Inr x, inp, [])"
  by (simp add: benign_def)

definition benign_check :: "(string \<Rightarrow> (pyexn + pyval) \<times> event list) \<Rightarrow> bool" where
  "benign_check chk = (\<forall>line. benign (fst (chk line), [], snd (chk line)))"

lemma benign_ask_None: "benign (ask prompt None inp)"
  by (cases inp) (simp_all add: benign_def)

lemma benign_ask:
  assumes "benign_check chk"
  shows "benign (ask prompt (Some chk) inp)"
proof (induction inp)
  case Nil
  show ?case by (simp add: benign_def)
next
  case (Cons line rest)
  from assms have b: "benign (fst (chk line), [], snd (chk line))"
    by (simp add: benign_check_def)
  obtain r printed where c: "chk line = (r, printed)" by (cases "chk line")
  from b c have np: "no_mutation printed" by (simp add: benign_def)
  show ?case
  proof (cases r)
    case (Inl e)
    with b c show ?thesis by (simp add: benign_def)
  next
    case (Inr v)
    with c np Cons show ?thesis
      by (simp add: benign_emit) (simp add: benign_def)
  qed
qed

lemma benign_VALID_UNIX: "benign_check VALID_UNIX"
  by (simp add: benign_check_def benign_def VALID_UNIX_def)

lemma benign_password_check: "benign_check password_check"
  by (simp add: benign_check_def benign_def password_check_def)

lemma benign_size_filter: "benign_check size_filter"
  by (auto simp add: benign_check_def benign_def size_filter_def int_of_float_def Let_def
        split: option.splits sum.splits pyfloat.splits)

lemma benign_ask_yn: "benign (ask_yn prompt inp)"
  by (cases inp) (simp_all add: benign_def)

lemma no_mutation_choose_prompt [simp]:
  "no_mutation (choose_prompt prompt items # evs) = no_mutation evs"
  by (simp add: choose_prompt_def)

lemma benign_choose: "benign (choose' prompt items inp)"
proof (induction inp arbitrary: items)
  case Nil
  show ?case by (simp add: benign_def choose_prompt_def)
next
  case (Cons choice rest)
  have p: "no_mutation [choose_prompt prompt items]" by simp
  show ?case
  proof (cases "startswith choice ''/''")
    case True
    with Cons p show ?thesis by (simp add: Let_def benign_emit)
  next
    case False
    show ?thesis
    proof (cases "py_int choice")
      case None
      with False Cons p show ?thesis by (simp add: benign_emit)
    next
      case (Some n)
      with False Cons p show ?thesis
        by (cases items) (simp_all add: Let_def benign_emit, simp_all add: benign_def)
    qed
  qed
qed

lemma benign_collect_user: "benign (collect_user inp)"
  unfolding collect_user_def
  by (intro benign_bind benign_ask benign_VALID_UNIX benign_password_check)
     (simp_all add: benign_return benign_ask_yn benign_bind benign_ask benign_password_check)

lemma benign_collect_users_loop: "benign (collect_users_loop us inp)"
proof (induction us inp rule: collect_users_loop.induct)
  case (1 us inp)
  show ?case
  proof (subst collect_users_loop.simps, rule benign_bind)
    show "benign (collect_user inp)" by (rule benign_collect_user)
  next
    fix x inp' evs
    assume a: "collect_user inp = (Inr x, inp', evs)"
    show "benign (case x of None \<Rightarrow> (Inr us, inp', []) | Some u' \<Rightarrow> collect_users_loop (us @ [u']) inp')"
    proof (cases x)
      case None
      then show ?thesis by (simp add: benign_return)
    next
      case (Some u')
      with "1.IH" [OF a Some] show ?thesis by simp
    qed
  qed
qed


lemma benign_collect_users: "benign (collect_users inp)"
  by (simp add: collect_users_def benign_collect_users_loop)

lemma benign_collect_general:
  "benign (collect_general env inp)"
  "benign (review_general env host tz us inp)"
proof (induction env inp and env host tz us inp rule: collect_general_review_general.induct)
  case (1 env inp)
  show ?case
    by (subst collect_general.simps)
       (intro benign_bind benign_ask benign_VALID_UNIX benign_choose benign_collect_users "1.IH",
        assumption+)
next
  case (2 env host tz us inp)
  show ?case
  proof (subst review_general.simps, rule benign_bind)
    show "benign (ask_yn (newline @ ''Is this ok? (Y/n) '') inp)" by (rule benign_ask_yn)
  next
    fix ok inp' evs
    assume a: "ask_yn (newline @ ''Is this ok? (Y/n) '') inp = (Inr ok, inp', evs)"
    show "benign (if ok then (Inr \<lparr>timezone = tz, hostname = host, users = us\<rparr>, inp', [])
                  else collect_general env inp')"
      using "2.IH" [OF a] by (simp add: benign_return)
  qed
qed

lemma benign_Partitioning_new:
  "benign (without_input (Partitioning_new env dev root) inp)"
  by (simp add: Partitioning_new_def without_input_def benign_def no_mutation_def mutates_def
        split: pyval.split)

lemma benign_collect_partitioning:
  "benign (collect_partitioning env inp)"
  "benign (review_partitioning env dev root inp)"
proof (induction env inp and env dev root inp rule: collect_partitioning_review_partitioning.induct)
  case (1 env inp)
  have q: "no_mutation [Run [''lsblk'', ''-d'', ''-o'', ''NAME,SIZE'']]"
    by (simp add: no_mutation_def mutates_def)
  show ?case
  proof (subst collect_partitioning.simps, rule benign_emit [OF q], unfold Let_def, rule benign_bind)
    show "benign (choose' ''Device''
            (PyList (filter (\<lambda>x. x \<noteq> []) (tl (split_on (CHR 0x0A) (strip (lsblk_listing env)))))) inp)"
      by (rule benign_choose)
  next
    fix chosen inp1 evs1
    assume a: "choose' ''Device''
            (PyList (filter (\<lambda>x. x \<noteq> []) (tl (split_on (CHR 0x0A) (strip (lsblk_listing env)))))) inp
          = (Inr chosen, inp1, evs1)"
    show "benign (case split_ws chosen of
                   [] \<Rightarrow> (Inl (IndexError ''list index out of range''), inp1, [])
                 | first # others \<Rightarrow>
                     bind (ask_yn ''Do you want a separate /home partition? (Y/n) '' inp1)
                       (\<lambda>separate inp.
                          if \<not> separate then review_partitioning env (''/dev/'' @ first) (PInt 0) inp
                          else bind (ask_size ''Size of the root partition (rest will be given to /home)'' inp)
                                 (\<lambda>root. review_partitioning env (''/dev/'' @ first) root)))"
    proof (cases "split_ws chosen")
      case Nil
      then show ?thesis by (simp add: benign_def)
    next
      case (Cons first others)
      show ?thesis
        unfolding Cons list.case
      proof (rule benign_bind)
        show "benign (ask_yn ''Do you want a separate /home partition? (Y/n) '' inp1)"
          by (rule benign_ask_yn)
      next
        fix separate inp2 evs2
        assume b: "ask_yn ''Do you want a separate /home partition? (Y/n) '' inp1
                     = (Inr separate, inp2, evs2)"
        show "benign (if \<not> separate then review_partitioning env (''/dev/'' @ first) (PInt 0) inp2
                      else bind (ask_size ''Size of the root partition (rest will be given to /home)'' inp2)
                             (\<lambda>root. review_partitioning env (''/dev/'' @ first) root))"
        proof (cases separate)
          case False
          with "1.IH"(1) [OF refl a Cons refl b] show ?thesis by simp
        next
          case True
          have "benign (bind (ask_size ''Size of the root partition (rest will be given to /home)'' inp2)
                             (\<lambda>root. review_partitioning env (''/dev/'' @ first) root))"
          proof (rule benign_bind)
            show "benign (ask_size ''Size of the root partition (rest will be given to /home)'' inp2)"
              unfolding ask_size_def by (rule benign_ask [OF benign_size_filter])
          next
            fix root inp3 evs3
            assume c: "ask_size ''Size of the root partition (rest will be given to /home)'' inp2
                         = (Inr root, inp3, evs3)"
            from True have "\<not> \<not> separate" by simp
            from "1.IH"(2) [OF refl a Cons refl b this c]
            show "benign (review_partitioning env (''/dev/'' @ first) root inp3)" .
          qed
          with True show ?thesis by simp
        qed
      qed
    qed
  qed
next
  case (2 env dev root inp)
  show ?case
  proof (subst review_partitioning.simps, rule benign_bind)
    show "benign (ask_yn ''Is this ok? (Y/n) '' inp)" by (rule benign_ask_yn)
  next
    fix ok inp' evs
    assume a: "ask_yn ''Is this ok? (Y/n) '' inp = (Inr ok, inp', evs)"
    show "benign (if ok then without_input (Partitioning_new env dev root) inp'
                  else collect_partitioning env inp')"
      using "2.IH" [OF a] by (simp add: benign_Partitioning_new)
  qed
qed


lemma bind_Inl_iff:
  "bind m f = (Inl e, inp', evs) \<longleftrightarrow>
     m = (Inl e, inp', evs)
     \<or> (\<exists>x inp1 evs1 evs2. m = (Inr x, inp1, evs1) \<and> f x inp1 = (Inl e, inp', evs2)
            \<and> evs = evs1 @ evs2)"
  by (auto simp add: bind_def split: prod.splits sum.splits)

lemma steps_no_exit:
  "list_all (\<lambda>x. fst x \<noteq> Inl (SystemExit m)) xs \<Longrightarrow> fst (steps xs) \<noteq> Inl (SystemExit m)"
  by (induction xs rule: steps.induct) (auto split: prod.splits)

lemma add_users_loop_no_exit: "fst (add_users_loop us) \<noteq> Inl (SystemExit m)"
proof (induction us)
  case Nil
  show ?case by simp
next
  case (Cons u us)
  show ?case
  proof (cases "username u")
    case (PStr name)
    have "fst (steps [(Inr (), [Run [''arch-chroot'', ''/mnt'', ''useradd'', ''-m'', ''-G'', ''wheel'', name],
                           RunInput [''arch-chroot'', ''/mnt'', ''chpasswd'']
                             (name @ '':'' @ py_str (password u))]),
                 add_users_loop us]) \<noteq> Inl (SystemExit m)"
      by (rule steps_no_exit) (simp add: Cons)
    with PStr show ?thesis by simp
  qed simp_all
qed

lemma install_no_exit: "fst (Installer_install env i) \<noteq> Inl (SystemExit m)"
proof -
  have 1: "fst (Partitioning_apply (partitioning i)) \<noteq> Inl (SystemExit m)"
    by (simp add: Partitioning_apply_def Let_def)
  have 2: "fst (set_hostname i) \<noteq> Inl (SystemExit m)"
    by (simp add: set_hostname_def split: pyval.split)
  have 3: "fst (add_users i) \<noteq> Inl (SystemExit m)"
    by (simp add: add_users_def add_users_loop_no_exit)
  have 4: "fst (setup_bootloader env i) \<noteq> Inl (SystemExit m)"
    unfolding setup_bootloader_def
    by (rule steps_no_exit)
       (simp add: install_bootloader_def make_loader_config_def make_boot_entry_def Let_def)
  have 5: "fst (PostInstall_install (post_install i)) \<noteq> Inl (SystemExit m)"
    unfolding PostInstall_install_def
    by (rule steps_no_exit) (simp add: install_packages_def download_and_run_scripts_def)
  have 6: "fst pacstrap = Inr ()" "fst genfstab = Inr ()" "fst edit_sudoers = Inr ()"
    "fst lock_root = Inr ()" "fst (make_hosts i) = Inr ()" "fst (setup_time i) = Inr ()"
    "fst locale_gen = Inr ()" "fst setup_network = Inr ()"
    by (simp_all add: pacstrap_def genfstab_def edit_sudoers_def lock_root_def make_hosts_def
          setup_time_def locale_gen_def setup_network_def Let_def)
  show ?thesis
    unfolding Installer_install_def
    by (rule steps_no_exit) (simp add: 1 2 3 4 5 6)
qed

lemma benign_no_exit: "benign m \<Longrightarrow> m \<noteq> (Inl (SystemExit msg), inp, evs)"
  by (auto simp add: benign_def)

lemma benign_events: "benign m \<Longrightarrow> m = (r, inp, evs) \<Longrightarrow> no_mutation evs"
  by (auto simp add: benign_def)

lemma confirm_install_Nil:
  "confirm_install g p [] = (Inl EOFError, [], [Prompt ''Do you want to install? (Y/n) ''])"
  by (simp add: confirm_install_def bind_def)

lemma confirm_install_Cons:
  "confirm_install g p (a # rest) =
     (if startswith (lower (strip a)) ''n''
      then (Inl (SystemExit ''Installation aborted''), rest,
            [Prompt ''Do you want to install? (Y/n) ''])
      else case rest of
             [] \<Rightarrow> (Inl EOFError, [],
                    [Prompt ''Do you want to install? (Y/n) '',
                     Prompt ''This will wipe everything. Are you sure? (Y/n) ''])
           | b # rest' \<Rightarrow>
               if startswith (lower (strip b)) ''n''
               then (Inl (SystemExit ''Installation aborted''), rest',
                     [Prompt ''Do you want to install? (Y/n) '',
                      Prompt ''This will wipe everything. Are you sure? (Y/n) ''])
               else (Inr \<lparr>general = g, partitioning = p,
                           post_install = \<lparr>packages = [], scripts = []\<rparr>\<rparr>, rest',
                     [Prompt ''Do you want to install? (Y/n) '',
                      Prompt ''This will wipe everything. Are you sure? (Y/n) '']))"
  by (cases rest) (simp_all add: confirm_install_def bind_def)

lemma confirm_install_exit':
  assumes "fst (confirm_install g p inp) = Inl (SystemExit m)"
  shows "m = ''Installation aborted'' \<and> no_mutation (snd (snd (confirm_install g p inp)))"
proof (cases inp)
  case Nil
  with assms show ?thesis by (simp add: confirm_install_Nil)
next
  case a: (Cons a rest)
  show ?thesis
  proof (cases "startswith (lower (strip a)) ''n''")
    case True
    with assms a show ?thesis by (simp add: confirm_install_Cons)
  next
    case na: False
    show ?thesis
    proof (cases rest)
      case Nil
      with assms a na show ?thesis by (simp add: confirm_install_Cons)
    next
      case (Cons b rest')
      with assms a na show ?thesis
        by (cases "startswith (lower (strip b)) ''n''") (simp_all add: confirm_install_Cons)
    qed
  qed
qed

lemma confirm_install_exit:
  assumes "confirm_install g p inp = (Inl (SystemExit m), inp', evs)"
  shows "m = ''Installation aborted'' \<and> no_mutation evs"
  using confirm_install_exit' [of g p inp m] assms by simp

lemma install_step_no_exit:
  "without_input (Installer_install env i) inp \<noteq> (Inl (SystemExit m), inp', evs')"
  using install_no_exit [of env i m] by (simp add: without_input_def)

lemma run_exit:
  assumes "run env inp = (Inl (SystemExit m), inp', evs)"
  shows "m = ''Installation aborted'' \<and> no_mutation evs"
proof -
  from assms benign_no_exit [OF benign_collect_general(1)]
  obtain g inp1 evs1 evs1' where
    g: "collect_general env inp = (Inr g, inp1, evs1)"
    and r1: "bind (collect_partitioning env inp1) (\<lambda>p inp.
               bind (confirm_install g p inp) (\<lambda>i inp.
                 without_input (Installer_install env i) inp))
             = (Inl (SystemExit m), inp', evs1')"
    and e1: "evs = evs1 @ evs1'"
    unfolding run_def bind_Inl_iff by blast
  from r1 benign_no_exit [OF benign_collect_partitioning(1)]
  obtain p inp2 evs2 evs2' where
    p: "collect_partitioning env inp1 = (Inr p, inp2, evs2)"
    and r2: "bind (confirm_install g p inp2) (\<lambda>i inp.
                 without_input (Installer_install env i) inp)
             = (Inl (SystemExit m), inp', evs2')"
    and e2: "evs1' = evs2 @ evs2'"
    unfolding bind_Inl_iff by blast
  have q1: "no_mutation evs1" using benign_events [OF benign_collect_general(1) g] .
  have q2: "no_mutation evs2" using benign_events [OF benign_collect_partitioning(1) p] .
  from r2 have "confirm_install g p inp2 = (Inl (SystemExit m), inp', evs2')"
    using install_step_no_exit by (simp add: bind_Inl_iff)
  from confirm_install_exit [OF this] q1 q2 e1 e2 show ?thesis by simp
qed


subsection \<open>Substrings and the menu\<close>

lemma startswith_iff: "startswith s p \<longleftrightarrow> (\<exists>post. s = p @ post)"
proof
  assume "startswith s p"
  then have "s = p @ drop (length p) s"
    by (metis append_take_drop_id startswith_def)
  then show "\<exists>post. s = p @ post" ..
next
  assume "\<exists>post. s = p @ post"
  then show "startswith s p" by (auto simp add: startswith_def)
qed

lemma contains_iff: "contains q s \<longleftrightarrow> (\<exists>pre post. s = pre @ q @ post)"
proof (induction s)
  case Nil
  show ?case by auto
next
  case (Cons c s)
  show ?case
  proof
    assume "contains q (c # s)"
    then consider "startswith (c # s) q" | "contains q s" by auto
    then show "\<exists>pre post. c # s = pre @ q @ post"
    proof cases
      case 1
      then obtain post where "c # s = q @ post" by (auto simp add: startswith_iff)
      then have "c # s = [] @ q @ post" by simp
      then show ?thesis by blast
    next
      case 2
      with Cons obtain pre post where "s = pre @ q @ post" by auto
      then have "c # s = (c # pre) @ q @ post" by simp
      then show ?thesis by blast
    qed
  next
    assume "\<exists>pre post. c # s = pre @ q @ post"
    then obtain pre post where e: "c # s = pre @ q @ post" by auto
    show "contains q (c # s)"
    proof (cases pre)
      case Nil
      with e have "startswith (c # s) q" by (auto simp add: startswith_iff)
      then show ?thesis by simp
    next
      case (Cons d pre')
      with e have "s = pre' @ q @ post" by simp
      with Cons.IH have "contains q s" by blast
      then show ?thesis by simp
    qed
  qed
qed

lemma choose_search:
  "choose' prompt items ((CHR ''/'' # q) # rest) =
     (if filter (\<lambda>item. contains (lower q) (lower item)) (elements items) \<noteq> []
      then emit [choose_prompt prompt items]
             (choose' prompt
                (PyList (filter (\<lambda>item. contains (lower q) (lower item)) (elements items))) rest)
      else emit [choose_prompt prompt items, Print ''No matches found'']
             (choose' prompt items rest))"
  by (simp add: startswith_def Let_def)


subsection \<open>What \<open>ask\<close> returns for each validator\<close>

lemma ask_VALID_UNIX:
  "ask prompt (Some VALID_UNIX) (line # rest) =
     (Inr (if isalnum line then PStr line else PBool False), rest, [Prompt (prompt @ '': '')])"
  by (auto simp add: VALID_UNIX_def isinstance_int_def isinstance_str_def isalnum_def)

lemma ask_password_check:
  "ask prompt (Some password_check) (line # rest) =
     (Inr (if strip line \<noteq> [] then PStr line else PBool False), rest, [Prompt (prompt @ '': '')])"
  by (simp add: password_check_def isinstance_int_def isinstance_str_def)

lemma ask_size_invalid:
  "match_size (upper (strip line)) = None \<Longrightarrow>
   ask_size prompt (line # rest) =
     (Inr (PBool False), rest, [Prompt (prompt @ '': ''), Print size_help])"
  by (simp add: ask_size_def size_filter_def isinstance_int_def isinstance_str_def)

lemma collect_user_invalid:
  "\<not> isalnum line \<Longrightarrow>
   collect_user (line # rest) = (Inr None, rest, [Prompt ''Username: ''])"
  by (simp add: collect_user_def ask_VALID_UNIX bind_def truthy_def del: ask.simps)

lemma collect_user_valid:
  assumes "collect_user inp = (Inr (Some u), inp', evs)"
  shows "valid_username (username u)"
proof (cases inp)
  case Nil
  with assms show ?thesis by (simp add: collect_user_def bind_def)
next
  case (Cons line rest)
  show ?thesis
  proof (cases "isalnum line")
    case False
    with assms Cons show ?thesis by (simp add: collect_user_invalid)
  next
    case True
    then have t: "truthy (PStr line)" by (auto simp add: truthy_def isalnum_def)
    from assms Cons True t have "username u = PStr line"
      by (auto simp add: collect_user_def ask_VALID_UNIX bind_Inr_iff simp del: ask.simps)
    with True show ?thesis by (simp add: valid_username_def)
  qed
qed

lemma collect_users_loop_valid:
  "collect_users_loop us inp = (Inr us', inp', evs) \<Longrightarrow>
   list_all (\<lambda>u. valid_username (username u)) us \<Longrightarrow>
   list_all (\<lambda>u. valid_username (username u)) us'"
proof (induction us inp arbitrary: evs rule: collect_users_loop.induct)
  case (1 us inp)
  from "1.prems"(1) obtain u inp1 evs1 evs2 where
    a: "collect_user inp = (Inr u, inp1, evs1)"
    and b: "(case u of None \<Rightarrow> (Inr us, inp1, [])
             | Some u' \<Rightarrow> collect_users_loop (us @ [u']) inp1) = (Inr us', inp', evs2)"
    by (subst (asm) collect_users_loop.simps) (auto simp add: bind_Inr_iff)
  show ?case
  proof (cases u)
    case None
    with b "1.prems"(2) show ?thesis by simp
  next
    case (Some u')
    with a have "valid_username (username u')" by (simp add: collect_user_valid)
    with "1.prems"(2) have v: "list_all (\<lambda>u. valid_username (username u)) (us @ [u'])"
      by simp
    from b Some have "collect_users_loop (us @ [u']) inp1 = (Inr us', inp', evs2)" by simp
    from "1.IH" [OF a Some this v] show ?thesis .
  qed
qed

subsection \<open>A menu choice that starts with a slash is not a number\<close>

lemma rev_dropWhile_rev_Cons:
  assumes "\<not> P x"
  shows "\<exists>zs. rev (dropWhile P (rev (x # xs))) = x # zs"
proof (cases "\<forall>y\<in>set (rev xs). P y")
  case True
  then have "dropWhile P (rev xs @ [x]) = dropWhile P [x]"
    by (intro dropWhile_append2) simp
  with assms show ?thesis by simp
next
  case False
  then obtain y where "y \<in> set (rev xs)" "\<not> P y" by blast
  then have "dropWhile P (rev xs @ [x]) = dropWhile P (rev xs) @ [x]"
    by (rule dropWhile_append1)
  then show ?thesis by simp
qed

lemma py_int_slash: "py_int (CHR ''/'' # cs) = None"
proof -
  have s: "\<not> int_space (CHR ''/'')" by (simp add: int_space_def)
  then obtain zs where
    "rev (dropWhile int_space (rev (dropWhile int_space (CHR ''/'' # cs)))) = CHR ''/'' # zs"
    using rev_dropWhile_rev_Cons [of int_space "CHR ''/''" cs] by auto
  then show ?thesis
    by (simp add: py_int_def Let_def isdigit_def)
qed

lemma choose_index:
  assumes "py_int choice = Some n" and "1 \<le> n" and "n \<le> int (length (elements items))"
  shows "choose' prompt items (choice # rest) =
     (case items of
        PyList xs \<Rightarrow> (Inr (xs ! nat (n - 1)), rest, [choose_prompt prompt items])
      | PySet xs \<Rightarrow> (Inl (TypeError ''set object is not subscriptable''), rest,
                     [choose_prompt prompt items]))"
proof -
  have "\<not> startswith choice ''/''"
  proof
    assume "startswith choice ''/''"
    then obtain cs where "choice = CHR ''/'' # cs"
      by (cases choice) (auto simp add: startswith_def)
    with assms(1) show False by (simp add: py_int_slash)
  qed
  with assms show ?thesis by (simp add: Let_def)
qed


section \<open>The claims\<close>

subsection \<open>C1: size and extent of the home partition\<close>

text \<open>
  C1 says that the home partition has the size of the planner's remaining-space field,
  \<open>budget - rootSizeMB\<close> with \<open>budget = totalSizeMB - 512 - 1024\<close>, and spans
  \<open>[512 + 1024 + rootSizeMB, totalSizeMB)\<close>; for a 40960 MB disk and a 10240 MB root
  that is 29184 MB at \<open>[11776, 40960)\<close>.

  The code does otherwise. The constructor already stores \<open>budget - rootSizeMB\<close> in
  \<open>remaining_size\<close>, and \<open>apply\<close> subtracts the root size from that field once more:
  whenever \<open>apply\<close> accepts a positive root size, the fourth partition created is
  \<open>[1536 + root, disk - root)\<close>, of size \<open>remaining_size - root = disk - 1536 - 2 * root\<close>,
  so the last \<open>root\<close> megabytes of the disk are left unallocated.
\<close>

theorem C1_home_partition_of_apply:
  assumes "0 < disk" and "0 < root"
    and "fst (Partitioning_apply (Partitioning_init dev root disk)) = Inr ()"
  shows "layout (snd (Partitioning_apply (Partitioning_init dev root disk))) ! 3
           = (''ext4'', 1536 + root, disk - root)
       \<and> part_size (layout (snd (Partitioning_apply (Partitioning_init dev root disk))) ! 3)
           = remaining_size (Partitioning_init dev root disk) - root
       \<and> remaining_size (Partitioning_init dev root disk) = disk - 512 - 1024 - root"
proof -
  let ?p = "Partitioning_init dev root disk"
  have rem: "remaining_size ?p = disk - 1536 - root"
    using assms(2) by (simp add: remaining_size_init)
  have acc: "\<not> (root \<noteq> 0 \<and> remaining_size ?p \<le> root)"
    using assms(3) apply_rejected [of root dev disk] by auto
  have "layout (snd (Partitioning_apply ?p)) =
          [(''fat32'', 0, 512), (''linux-swap'', 512, 1536), (''ext4'', 1536, 1536 + root),
           (''ext4'', 1536 + root, 1536 + root + (disk - 1536 - root - root))]"
    using assms(2) by (simp add: apply_accepted [OF acc] layout_create_partitions)
  then show ?thesis
    using rem by (simp add: part_size_def)
qed

theorem C1_home_partition_at_40960_10240:
  "(0::int) < 40960 \<and> (0::int) < 10240
   \<and> fst (Partitioning_apply (Partitioning_init ''/dev/sda'' 10240 40960)) = Inr ()
   \<and> remaining_size (Partitioning_init ''/dev/sda'' 10240 40960) = 29184
   \<and> layout (snd (Partitioning_apply (Partitioning_init ''/dev/sda'' 10240 40960))) ! 3
        = (''ext4'', 11776, 30720)
   \<and> part_size (layout (snd (Partitioning_apply (Partitioning_init ''/dev/sda'' 10240 40960))) ! 3)
        = 18944"
proof -
  have ok: "fst (Partitioning_apply (Partitioning_init ''/dev/sda'' 10240 40960)) = Inr ()"
    by (simp add: partitioning_defs)
  show ?thesis
    using C1_home_partition_of_apply [of 40960 10240 "''/dev/sda''"] ok
    by (simp add: part_size_def)
qed


subsection \<open>C2: the layout is disjoint, contiguous and fills the disk\<close>

text \<open>
  C2 says that for every disk larger than 1536 MB and every root size in
  \<open>[0, disk - 1536)\<close>, \<open>apply\<close> produces a layout that is pairwise disjoint, contiguous in
  the order boot, swap, root, then home exactly when the root size is positive, and
  whose sizes add up to the disk.

  As stated this fails. The validation of \<open>apply\<close> is an explicit guard that rejects
  every positive root size with \<open>root \<ge> disk - 1536 - root\<close> (C4), so half of the claimed
  range yields no layout at all; and with a home partition the sizes do not add up to
  the disk (C1). What holds, C2 as amended: for every disk larger than 1536 MB and
  every root size in \<open>[0, disk - 1536)\<close> that passes the validation of \<open>apply\<close> (it is 0,
  or less than \<open>disk - 1536 - root\<close>), \<open>apply\<close> creates boot \<open>[0, 512)\<close>, swap
  \<open>[512, 1536)\<close>, root from 1536 on and a fourth partition exactly when the root size
  is positive; the partitions are non-empty, contiguous from 0 in this order and
  pairwise disjoint; and without a home partition their sizes add up to the disk.
\<close>

theorem C2_layout_of_accepted_request:
  assumes "1536 < disk" and "0 \<le> root" and "root < disk - 1536"
    and "root = 0 \<or> root < disk - 1536 - root"
  shows "fst (Partitioning_apply (Partitioning_init dev root disk)) = Inr ()
    \<and> map fst (layout (snd (Partitioning_apply (Partitioning_init dev root disk))))
        = [''fat32'', ''linux-swap'', ''ext4''] @ (if 0 < root then [''ext4''] else [])
    \<and> take 3 (layout (snd (Partitioning_apply (Partitioning_init dev root disk))))
        = [(''fat32'', 0, 512), (''linux-swap'', 512, 1536),
           (''ext4'', 1536, 1536 + (if 0 < root then root else disk - 1536))]
    \<and> contiguous_from 0 (layout (snd (Partitioning_apply (Partitioning_init dev root disk))))
    \<and> pairwise_disjoint (layout (snd (Partitioning_apply (Partitioning_init dev root disk))))
    \<and> list_all (\<lambda>x. 0 < part_size x)
          (layout (snd (Partitioning_apply (Partitioning_init dev root disk))))
    \<and> (root = 0 \<longrightarrow>
          sum_list (map part_size
            (layout (snd (Partitioning_apply (Partitioning_init dev root disk))))) = disk)"
proof -
  define L where "L = layout (snd (Partitioning_apply (Partitioning_init dev root disk)))"
  have acc: "\<not> (root \<noteq> 0 \<and> remaining_size (Partitioning_init dev root disk) \<le> root)"
    using assms by (auto simp add: remaining_size_init)
  have r: "fst (Partitioning_apply (Partitioning_init dev root disk)) = Inr ()"
    by (simp add: apply_accepted [OF acc])
  have l: "L =
      [(''fat32'', 0, 512), (''linux-swap'', 512, 1536),
       (''ext4'', 1536, 1536 + (if 0 < root then root else disk - 1536))]
      @ (if 0 < root then [(''ext4'', 1536 + root, disk - root)] else [])"
    unfolding L_def by (simp add: apply_accepted [OF acc] layout_create_partitions)
  have "map fst L = [''fat32'', ''linux-swap'', ''ext4''] @ (if 0 < root then [''ext4''] else [])
    \<and> take 3 L = [(''fat32'', 0, 512), (''linux-swap'', 512, 1536),
           (''ext4'', 1536, 1536 + (if 0 < root then root else disk - 1536))]
    \<and> contiguous_from 0 L \<and> pairwise_disjoint L \<and> list_all (\<lambda>x. 0 < part_size x) L
    \<and> (root = 0 \<longrightarrow> sum_list (map part_size L) = disk)"
  proof (cases "0 < root")
    case True
    with assms(1,4) show ?thesis
      unfolding l by (simp add: overlaps_def part_size_def)
  next
    case False
    with assms(1) show ?thesis
      unfolding l by (simp add: overlaps_def part_size_def)
  qed
  with r show ?thesis unfolding L_def by simp
qed

theorem C2_layout_of_accepted_request_witness:
  "(1536::int) < 40960 \<and> (0::int) \<le> 10240 \<and> (10240::int) < 40960 - 1536
   \<and> (10240::int) < 40960 - 1536 - 10240
   \<and> fst (Partitioning_apply (Partitioning_init ''/dev/sda'' 10240 40960)) = Inr ()
   \<and> map fst (layout (snd (Partitioning_apply (Partitioning_init ''/dev/sda'' 10240 40960))))
        = [''fat32'', ''linux-swap'', ''ext4'', ''ext4'']
   \<and> contiguous_from 0 (layout (snd (Partitioning_apply (Partitioning_init ''/dev/sda'' 10240 40960))))
   \<and> pairwise_disjoint (layout (snd (Partitioning_apply (Partitioning_init ''/dev/sda'' 10240 40960))))"
proof -
  have a: "(1536::int) < 40960" "(0::int) \<le> 10240" "(10240::int) < 40960 - 1536"
    "(10240::int) = 0 \<or> (10240::int) < 40960 - 1536 - 10240"
    by simp_all
  note t = C2_layout_of_accepted_request [OF a, of "''/dev/sda''"]
  have 1: "fst (Partitioning_apply (Partitioning_init ''/dev/sda'' 10240 40960)) = Inr ()"
    using t by blast
  have "map fst (layout (snd (Partitioning_apply (Partitioning_init ''/dev/sda'' 10240 40960))))
        = [''fat32'', ''linux-swap'', ''ext4''] @ (if (0::int) < 10240 then [''ext4''] else [])"
    using t by blast
  then have 2: "map fst (layout (snd (Partitioning_apply (Partitioning_init ''/dev/sda'' 10240 40960))))
        = [''fat32'', ''linux-swap'', ''ext4'', ''ext4'']"
    by simp
  have 3: "contiguous_from 0
             (layout (snd (Partitioning_apply (Partitioning_init ''/dev/sda'' 10240 40960))))"
    using t by blast
  have 4: "pairwise_disjoint
             (layout (snd (Partitioning_apply (Partitioning_init ''/dev/sda'' 10240 40960))))"
    using t by blast
  have 5: "(10240::int) < 40960 - 1536 - 10240" by simp
  show ?thesis using a(1,2,3) 5 1 2 3 4 by (intro conjI)
qed

text \<open>
  C2 as stated fails on a 20480 MB disk with a 15000 MB root, which is in the claimed
  range and is rejected, and on a 40960 MB disk with a 10240 MB root, whose four
  partitions add up to 30720 MB.
\<close>

theorem C2_rejected_and_short_layouts:
  "(1536::int) < 20480 \<and> (0::int) \<le> 15000 \<and> (15000::int) < 20480 - 1536
   \<and> Partitioning_apply (Partitioning_init ''/dev/sda'' 15000 20480)
        = (Inl (ValueError too_large_msg), [])
   \<and> (1536::int) < 40960 \<and> (0::int) \<le> 10240 \<and> (10240::int) < 40960 - 1536
   \<and> sum_list (map part_size
         (layout (snd (Partitioning_apply (Partitioning_init ''/dev/sda'' 10240 40960))))) = 30720"
  by (simp add: partitioning_defs part_size_def)


subsection \<open>C4: the sizing error\<close>

text \<open>
  C4: \<open>apply\<close> raises the sizing error exactly when the root size is positive and not
  less than the remaining-space field computed by the constructor, which is the
  budget less the root size, \<open>disk - 512 - 1024 - root\<close>; the error is raised before any
  partition is created or formatted (no event has been issued, and the installer that
  called \<open>apply\<close> stops there with nothing done); a 20480 MB disk with a 15000 MB root
  fails so. The root size is a size in megabytes, hence not negative.
\<close>

theorem C4_sizing_error:
  assumes "0 \<le> root"
  shows "(fst (Partitioning_apply (Partitioning_init dev root disk)) = Inl (ValueError too_large_msg))
           = (0 < root \<and> remaining_size (Partitioning_init dev root disk) \<le> root)
    \<and> remaining_size (Partitioning_init dev root disk)
           = (if 0 < root then disk - 512 - 1024 - root else disk - 512 - 1024)
    \<and> (\<forall>e. fst (Partitioning_apply (Partitioning_init dev root disk)) = Inl e \<longrightarrow>
           e = ValueError too_large_msg
           \<and> snd (Partitioning_apply (Partitioning_init dev root disk)) = []
           \<and> (\<forall>env g po. Installer_install env
                  \<lparr>general = g, partitioning = Partitioning_init dev root disk, post_install = po\<rparr>
                = (Inl e, [])))"
proof (cases "root \<noteq> 0 \<and> remaining_size (Partitioning_init dev root disk) \<le> root")
  case True
  moreover from True assms have "0 < root" by simp
  ultimately show ?thesis
    by (simp add: apply_rejected [OF True] remaining_size_init Installer_install_def)
next
  case False
  moreover from False assms have "\<not> (0 < root \<and> remaining_size (Partitioning_init dev root disk) \<le> root)"
    by auto
  ultimately show ?thesis
    by (simp add: apply_accepted [OF False] remaining_size_init)
qed

theorem C4_sizing_error_witness:
  "(0::int) \<le> 15000
   \<and> remaining_size (Partitioning_init ''/dev/sda'' 15000 20480) = 3944
   \<and> fst (Partitioning_apply (Partitioning_init ''/dev/sda'' 15000 20480))
        = Inl (ValueError too_large_msg)
   \<and> snd (Partitioning_apply (Partitioning_init ''/dev/sda'' 15000 20480)) = []"
proof -
  have a: "(0::int) \<le> 15000" by simp
  note t = C4_sizing_error [OF a, of "''/dev/sda''" 20480]
  have "remaining_size (Partitioning_init ''/dev/sda'' 15000 20480)
          = (if (0::int) < 15000 then 20480 - 512 - 1024 - 15000 else 20480 - 512 - 1024)"
    using t by blast
  then have 1: "remaining_size (Partitioning_init ''/dev/sda'' 15000 20480) = 3944"
    by simp
  have "(fst (Partitioning_apply (Partitioning_init ''/dev/sda'' 15000 20480))
           = Inl (ValueError too_large_msg))
        = ((0::int) < 15000 \<and> remaining_size (Partitioning_init ''/dev/sda'' 15000 20480) \<le> 15000)"
    using t by blast
  with 1 have 2: "fst (Partitioning_apply (Partitioning_init ''/dev/sda'' 15000 20480))
           = Inl (ValueError too_large_msg)"
    by simp
  have 3: "snd (Partitioning_apply (Partitioning_init ''/dev/sda'' 15000 20480)) = []"
    using t 2 by blast
  show ?thesis using a 1 2 3 by (intro conjI)
qed


subsection \<open>C3: what happens to invalid input at a validated prompt\<close>

text \<open>
  C3 says that every prompt with a validator (the size text, host name and user name
  by the non-empty alphanumeric check, the non-blank password) asks the same question
  again until the input is valid, and that an invalid value is never returned or put
  into the configuration.

  The code has the loop for it, but does not get there. Each of these validators
  answers an invalid line with \<^verbatim>\<open>False\<close>, and \<open>ask\<close> accepts every result that is an
  instance of \<^verbatim>\<open>int\<close>, which \<^verbatim>\<open>False\<close> is. So \<open>ask\<close> returns \<^verbatim>\<open>False\<close> after a single
  prompt, without \<^verbatim>\<open>Invalid input\<close> and without asking again: for a line that is not
  alphanumeric at the host name or user name prompt, for a blank line at the password
  prompt, and for a line that does not match the size pattern at the size prompt
  (which prints its hint). The value travels on: \<open>collect_general\<close> hands \<^verbatim>\<open>False\<close> to the
  review as the host name.
\<close>

theorem C3_invalid_input_is_returned:
  "(\<not> isalnum line \<longrightarrow>
      ask prompt (Some VALID_UNIX) (line # rest)
        = (Inr (PBool False), rest, [Prompt (prompt @ '': '')]))
   \<and> (strip line = [] \<longrightarrow>
      ask prompt (Some password_check) (line # rest)
        = (Inr (PBool False), rest, [Prompt (prompt @ '': '')]))
   \<and> (match_size (upper (strip line)) = None \<longrightarrow>
      ask_size prompt (line # rest)
        = (Inr (PBool False), rest, [Prompt (prompt @ '': ''), Print size_help]))
   \<and> (\<not> isalnum line \<longrightarrow>
      collect_general env (line # rest)
        = emit [Prompt ''Hostname: '']
            (bind (choose' ''Timezone'' (PySet (available_timezones env)) rest) (\<lambda>tz inp.
               bind (collect_users inp) (\<lambda>us inp.
                 review_general env (PBool False) tz us inp))))"
proof -
  have 4: "\<not> isalnum line \<longrightarrow>
      collect_general env (line # rest)
        = emit [Prompt ''Hostname: '']
            (bind (choose' ''Timezone'' (PySet (available_timezones env)) rest) (\<lambda>tz inp.
               bind (collect_users inp) (\<lambda>us inp.
                 review_general env (PBool False) tz us inp)))"
    by (subst collect_general.simps)
       (simp add: ask_VALID_UNIX bind_def emit_def del: ask.simps split: prod.split)
  show ?thesis
    using 4 by (simp add: ask_VALID_UNIX ask_password_check ask_size_invalid del: ask.simps)
qed

text \<open>
  The host name \<^verbatim>\<open>my host\<close>, a password of three blanks, and the size \<^verbatim>\<open>abc\<close>: each
  is answered once and ends up in the configuration as \<^verbatim>\<open>False\<close> (for the size: as
  no separate home partition, although one was asked for).
\<close>

theorem C3_invalid_input_is_returned_witness:
  "\<not> isalnum ''my host'' \<and> strip ''   '' = [] \<and> match_size (upper (strip ''abc'')) = None
   \<and> ask ''Hostname'' (Some VALID_UNIX) [''my host'', ''myhost'']
        = (Inr (PBool False), [''myhost''], [Prompt ''Hostname: ''])
   \<and> ask ''Password'' (Some password_check) [''   '', ''secret'']
        = (Inr (PBool False), [''secret''], [Prompt ''Password: ''])
   \<and> ask_size ''Size'' [''abc'', ''10G'']
        = (Inr (PBool False), [''10G''], [Prompt ''Size: '', Print size_help])
   \<and> fst (collect_general example_env [''my host'', ''/utc'', ''1'', ''bob'', ''   '', [], [], []])
        = Inr \<lparr>timezone = ''UTC'', hostname = PBool False,
                users = [\<lparr>username = PStr ''bob'', password = PBool False, sudo = True\<rparr>]\<rparr>
   \<and> fst (collect_partitioning example_env [''1'', ''yes'', ''abc'', []])
        = Inr (Partitioning_init ''/dev/sda'' 0 40960)"
proof -
  note t = C3_invalid_input_is_returned
  have a: "\<not> isalnum ''my host''" by code_simp
  have b: "strip ''   '' = []" by code_simp
  have c: "match_size (upper (strip ''abc'')) = None" by code_simp
  have 1: "ask ''Hostname'' (Some VALID_UNIX) [''my host'', ''myhost'']
        = (Inr (PBool False), [''myhost''], [Prompt ''Hostname: ''])"
    using t [where line = "''my host''" and prompt = "''Hostname''" and rest = "[''myhost'']",
             THEN conjunct1, rule_format, OF a]
    by simp
  have 2: "ask ''Password'' (Some password_check) [''   '', ''secret'']
        = (Inr (PBool False), [''secret''], [Prompt ''Password: ''])"
    using t [where line = "''   ''" and prompt = "''Password''" and rest = "[''secret'']",
             THEN conjunct2, THEN conjunct1, rule_format, OF b]
    by simp
  have 3: "ask_size ''Size'' [''abc'', ''10G'']
        = (Inr (PBool False), [''10G''], [Prompt ''Size: '', Print size_help])"
    using t [where line = "''abc''" and prompt = "''Size''" and rest = "[''10G'']",
             THEN conjunct2, THEN conjunct2, THEN conjunct1, rule_format, OF c]
    by simp
  have 4: "fst (collect_general example_env
                 [''my host'', ''/utc'', ''1'', ''bob'', ''   '', [], [], []])
        = Inr \<lparr>timezone = ''UTC'', hostname = PBool False,
                users = [\<lparr>username = PStr ''bob'', password = PBool False, sudo = True\<rparr>]\<rparr>"
    by code_simp
  have 5: "fst (collect_partitioning example_env [''1'', ''yes'', ''abc'', []])
        = Inr (Partitioning_init ''/dev/sda'' 0 40960)"
    by code_simp
  from a b c 1 2 3 4 5 show ?thesis by (intro conjI)
qed


subsection \<open>C5: when the collection of users ends\<close>

text \<open>
  C5 says that the loop of \<open>collect_users\<close> ends exactly when an empty user name is
  entered, and that a non-empty user name that is not alphanumeric is rejected and
  asked for again, so that every collected user has a non-empty alphanumeric name.

  The last part holds: every user that \<open>collect_users\<close> returns has an alphanumeric,
  hence non-empty, name. But no name is ever asked for again: for the reason given
  under C3, a user name that is not alphanumeric comes back from \<open>ask\<close> as \<^verbatim>\<open>False\<close>,
  \<open>collect_user\<close> takes it for the end of the list, and the loop ends there with the
  users collected so far, whether the line was empty or not.
\<close>

theorem C5_invalid_username_ends_the_loop:
  "(\<not> isalnum line \<longrightarrow>
      collect_users_loop us (line # rest) = (Inr us, rest, [Prompt ''Username: '']))
   \<and> (collect_users inp = (Inr us', inp', evs) \<longrightarrow>
        list_all (\<lambda>u. valid_username (username u)) us')"
proof -
  have 1: "\<not> isalnum line \<longrightarrow>
      collect_users_loop us (line # rest) = (Inr us, rest, [Prompt ''Username: ''])"
    by (subst collect_users_loop.simps) (simp add: collect_user_invalid bind_def)
  have 2: "collect_users inp = (Inr us', inp', evs) \<longrightarrow>
        list_all (\<lambda>u. valid_username (username u)) us'"
    using collect_users_loop_valid [of "[]" inp us' inp' evs]
    by (simp add: collect_users_def)
  from 1 2 show ?thesis by (intro conjI)
qed

text \<open>
  After the user \<^verbatim>\<open>bob\<close>, the name \<^verbatim>\<open>a b\<close> ends the collection; \<^verbatim>\<open>alice\<close>, typed
  next, is left unread.
\<close>

theorem C5_invalid_username_ends_the_loop_witness:
  "\<not> isalnum ''a b''
   \<and> collect_users_loop [\<lparr>username = PStr ''bob'', password = PStr ''pw'', sudo = True\<rparr>]
        [''a b'', ''alice'', ''pw2'', ''y'']
      = (Inr [\<lparr>username = PStr ''bob'', password = PStr ''pw'', sudo = True\<rparr>],
         [''alice'', ''pw2'', ''y''], [Prompt ''Username: ''])
   \<and> collect_users [''bob'', ''pw'', ''y'', ''a b'', ''alice'', ''pw2'', ''y'']
      = (Inr [\<lparr>username = PStr ''bob'', password = PStr ''pw'', sudo = True\<rparr>],
         [''alice'', ''pw2'', ''y''],
         [Prompt ''Username: '', Prompt ''Password: '', Prompt ''Can bob use sudo? (Y/n) '',
          Prompt ''Username: ''])
   \<and> list_all (\<lambda>u. valid_username (username u))
        [\<lparr>username = PStr ''bob'', password = PStr ''pw'', sudo = True\<rparr>]"
proof -
  note t = C5_invalid_username_ends_the_loop
  have a: "\<not> isalnum ''a b''" by code_simp
  have 1: "collect_users_loop [\<lparr>username = PStr ''bob'', password = PStr ''pw'', sudo = True\<rparr>]
        [''a b'', ''alice'', ''pw2'', ''y'']
      = (Inr [\<lparr>username = PStr ''bob'', password = PStr ''pw'', sudo = True\<rparr>],
         [''alice'', ''pw2'', ''y''], [Prompt ''Username: ''])"
    by (rule t [THEN conjunct1, rule_format, OF a])
  have 2: "collect_users [''bob'', ''pw'', ''y'', ''a b'', ''alice'', ''pw2'', ''y'']
      = (Inr [\<lparr>username = PStr ''bob'', password = PStr ''pw'', sudo = True\<rparr>],
         [''alice'', ''pw2'', ''y''],
         [Prompt ''Username: '', Prompt ''Password: '', Prompt ''Can bob use sudo? (Y/n) '',
          Prompt ''Username: ''])"
    by code_simp
  have 3: "list_all (\<lambda>u. valid_username (username u))
        [\<lparr>username = PStr ''bob'', password = PStr ''pw'', sudo = True\<rparr>]"
    by (rule t [THEN conjunct2, rule_format, OF 2])
  from a 1 2 3 show ?thesis by (intro conjI)
qed


subsection \<open>C6: choosing a timezone by its number\<close>

text \<open>
  C6 says that the timezone is chosen with \<open>choose\<close> over the whole catalogue, and that
  a number in range returns the item displayed under it: the branch of \<open>choose\<close> that
  selects by index never fails and returns an element of the pool.

  That is so for a pool that is a list, which is what \<open>choose\<close> declares to take
  (\<^verbatim>\<open>items: list[str]\<close>) and what the device menu passes. But \<open>collect_general\<close> passes
  the \<^emph>\<open>set\<close> returned by \<^verbatim>\<open>zoneinfo.available_timezones()\<close>, and a set cannot be
  indexed: a number in range at the timezone menu raises \<^verbatim>\<open>TypeError\<close>, which nothing
  catches, and the wizard ends there. (After a search the pool is a list, and a number
  works.)
\<close>

theorem C6_index_into_list_or_set:
  "(py_int choice = Some n \<and> 1 \<le> n \<and> n \<le> int (length xs) \<longrightarrow>
      choose' prompt (PyList xs) (choice # rest)
        = (Inr (xs ! nat (n - 1)), rest, [choose_prompt prompt (PyList xs)])
      \<and> xs ! nat (n - 1) \<in> set xs
      \<and> choose' prompt (PySet xs) (choice # rest)
        = (Inl (TypeError ''set object is not subscriptable''), rest,
           [choose_prompt prompt (PySet xs)]))
   \<and> (py_int choice = Some n \<and> 1 \<le> n \<and> n \<le> int (length (available_timezones env)) \<longrightarrow>
      collect_general env (host # choice # rest)
        = (Inl (TypeError ''set object is not subscriptable''), rest,
           [Prompt ''Hostname: '',
            choose_prompt ''Timezone'' (PySet (available_timezones env))]))"
proof -
  have 1: "py_int choice = Some n \<and> 1 \<le> n \<and> n \<le> int (length xs) \<longrightarrow>
      choose' prompt (PyList xs) (choice # rest)
        = (Inr (xs ! nat (n - 1)), rest, [choose_prompt prompt (PyList xs)])
      \<and> xs ! nat (n - 1) \<in> set xs
      \<and> choose' prompt (PySet xs) (choice # rest)
        = (Inl (TypeError ''set object is not subscriptable''), rest,
           [choose_prompt prompt (PySet xs)])"
  proof
    assume a: "py_int choice = Some n \<and> 1 \<le> n \<and> n \<le> int (length xs)"
    then have "nat (n - 1) < length xs" by auto
    then have "xs ! nat (n - 1) \<in> set xs" by (rule nth_mem)
    with a show "choose' prompt (PyList xs) (choice # rest)
        = (Inr (xs ! nat (n - 1)), rest, [choose_prompt prompt (PyList xs)])
      \<and> xs ! nat (n - 1) \<in> set xs
      \<and> choose' prompt (PySet xs) (choice # rest)
        = (Inl (TypeError ''set object is not subscriptable''), rest,
           [choose_prompt prompt (PySet xs)])"
      using choose_index [of choice n "PyList xs" prompt rest]
        choose_index [of choice n "PySet xs" prompt rest]
      by simp
  qed
  have 2: "py_int choice = Some n \<and> 1 \<le> n \<and> n \<le> int (length (available_timezones env)) \<longrightarrow>
      collect_general env (host # choice # rest)
        = (Inl (TypeError ''set object is not subscriptable''), rest,
           [Prompt ''Hostname: '',
            choose_prompt ''Timezone'' (PySet (available_timezones env))])"
  proof
    assume a: "py_int choice = Some n \<and> 1 \<le> n \<and> n \<le> int (length (available_timezones env))"
    then have "choose' ''Timezone'' (PySet (available_timezones env)) (choice # rest)
        = (Inl (TypeError ''set object is not subscriptable''), rest,
           [choose_prompt ''Timezone'' (PySet (available_timezones env))])"
      using choose_index [of choice n "PySet (available_timezones env)" "''Timezone''" rest]
      by simp
    then show "collect_general env (host # choice # rest)
        = (Inl (TypeError ''set object is not subscriptable''), rest,
           [Prompt ''Hostname: '',
            choose_prompt ''Timezone'' (PySet (available_timezones env))])"
      by (subst collect_general.simps) (simp add: ask_VALID_UNIX bind_def del: ask.simps)
  qed
  from 1 2 show ?thesis by (intro conjI)
qed

text \<open>
  Entering 1 at the timezone menu of the example machine, whose catalogue has one
  entry; the same number at a menu over the list of that entry.
\<close>

theorem C6_index_into_list_or_set_witness:
  "py_int ''1'' = Some 1 \<and> (1::int) \<le> 1 \<and> (1::int) \<le> int (length (available_timezones example_env))
   \<and> collect_general example_env [''arch'', ''1'', [], []]
        = (Inl (TypeError ''set object is not subscriptable''), [[], []],
           [Prompt ''Hostname: '', Prompt ''Timezone (1-1 or /search): ''])
   \<and> choose' ''Timezone'' (PyList [''UTC'']) [''1'', [], []]
        = (Inr ''UTC'', [[], []], [Prompt ''Timezone (1-1 or /search): ''])"
proof -
  note t = C6_index_into_list_or_set
  have a: "py_int ''1'' = Some 1" by code_simp
  have b: "(1::int) \<le> int (length (available_timezones example_env))" by code_simp
  have c: "(1::int) \<le> int (length [''UTC''])" by simp
  have p: "choose_prompt ''Timezone'' (PySet (available_timezones example_env))
             = Prompt ''Timezone (1-1 or /search): ''"
    by code_simp
  have q: "choose_prompt ''Timezone'' (PyList [''UTC'']) = Prompt ''Timezone (1-1 or /search): ''"
    by code_simp
  have 1: "collect_general example_env [''arch'', ''1'', [], []]
        = (Inl (TypeError ''set object is not subscriptable''), [[], []],
           [Prompt ''Hostname: '', Prompt ''Timezone (1-1 or /search): ''])"
    using t [where choice = "''1''" and n = 1 and env = example_env and host = "''arch''"
               and rest = "[[], []]", THEN conjunct2, rule_format, OF conjI [OF a conjI [OF order_refl b]]]
    by (simp only: p)
  have 2: "choose' ''Timezone'' (PyList [''UTC'']) [''1'', [], []]
        = (Inr ''UTC'', [[], []], [Prompt ''Timezone (1-1 or /search): ''])"
    using t [where choice = "''1''" and n = 1 and xs = "[''UTC'']" and prompt = "''Timezone''"
               and rest = "[[], []]", THEN conjunct1, rule_format, OF conjI [OF a conjI [OF order_refl c]],
             THEN conjunct1]
    by (simp only: q) simp
  from a b 1 2 show ?thesis by simp
qed


subsection \<open>C7: declining a confirmation aborts before anything is changed\<close>

text \<open>
  C7: when either of the two yes/no questions of \<open>confirm_install\<close> is declined, the
  process ends at once with the message \<^verbatim>\<open>Installation aborted\<close>, and no collaborator
  that changes the disk or the system is invoked in that run.

  Let the two collection phases succeed and let \<open>a\<close> be the answer to the first
  question. If \<open>a\<close> declines, the run ends in \<open>SystemExit\<close> with that message right after
  the first question; if \<open>a\<close> accepts and the next answer \<open>b\<close> declines, it ends so
  after the second. In both cases everything the run did is what the two collection
  phases did followed by the questions, none of it a mutation. More generally, no run
  that ends in \<open>SystemExit\<close> contains a mutation. (When both answers accept, the run
  goes on with \<open>Installer.install\<close>.)
\<close>

theorem C7_decline_aborts_before_any_mutation:
  assumes "collect_general env inp = (Inr g, inp1, evs1)"
    and "collect_partitioning env inp1 = (Inr p, a # rest, evs2)"
  shows "(startswith (lower (strip a)) ''n'' \<longrightarrow>
            run env inp = (Inl (SystemExit ''Installation aborted''), rest,
                           evs1 @ evs2 @ [Prompt ''Do you want to install? (Y/n) ''])
            \<and> no_mutation (snd (snd (run env inp))))
       \<and> (\<forall>b rest'. \<not> startswith (lower (strip a)) ''n'' \<and> rest = b # rest'
              \<and> startswith (lower (strip b)) ''n'' \<longrightarrow>
            run env inp = (Inl (SystemExit ''Installation aborted''), rest',
                           evs1 @ evs2 @ [Prompt ''Do you want to install? (Y/n) '',
                              Prompt ''This will wipe everything. Are you sure? (Y/n) ''])
            \<and> no_mutation (snd (snd (run env inp))))
       \<and> (\<forall>b rest'. \<not> startswith (lower (strip a)) ''n'' \<and> rest = b # rest'
              \<and> \<not> startswith (lower (strip b)) ''n'' \<longrightarrow>
            run env inp =
              emit (evs1 @ evs2 @ [Prompt ''Do you want to install? (Y/n) '',
                      Prompt ''This will wipe everything. Are you sure? (Y/n) ''])
                (without_input
                   (Installer_install env
                      \<lparr>general = g, partitioning = p,
                         post_install = \<lparr>packages = [], scripts = []\<rparr>\<rparr>) rest'))
       \<and> (\<forall>env' inp' m left evs. run env' inp' = (Inl (SystemExit m), left, evs) \<longrightarrow>
            m = ''Installation aborted'' \<and> no_mutation evs)"
proof -
  have r: "run env inp = emit (evs1 @ evs2) (bind (confirm_install g p (a # rest)) (\<lambda>i inp.
             without_input (Installer_install env i) inp))"
    by (simp add: run_def assms bind_def emit_def split: prod.splits sum.splits)
  have q: "no_mutation evs1" "no_mutation evs2"
    using benign_events [OF benign_collect_general(1) assms(1)]
      benign_events [OF benign_collect_partitioning(1) assms(2)] by simp_all
  have 1: "startswith (lower (strip a)) ''n'' \<longrightarrow>
            run env inp = (Inl (SystemExit ''Installation aborted''), rest,
                           evs1 @ evs2 @ [Prompt ''Do you want to install? (Y/n) ''])
            \<and> no_mutation (snd (snd (run env inp)))"
    using q by (simp add: r confirm_install_Cons bind_def emit_def)
  have 2: "\<forall>b rest'. \<not> startswith (lower (strip a)) ''n'' \<and> rest = b # rest'
              \<and> startswith (lower (strip b)) ''n'' \<longrightarrow>
            run env inp = (Inl (SystemExit ''Installation aborted''), rest',
                           evs1 @ evs2 @ [Prompt ''Do you want to install? (Y/n) '',
                              Prompt ''This will wipe everything. Are you sure? (Y/n) ''])
            \<and> no_mutation (snd (snd (run env inp)))"
    using q by (simp add: r confirm_install_Cons bind_def emit_def)
  have 3: "\<forall>b rest'. \<not> startswith (lower (strip a)) ''n'' \<and> rest = b # rest'
              \<and> \<not> startswith (lower (strip b)) ''n'' \<longrightarrow>
            run env inp =
              emit (evs1 @ evs2 @ [Prompt ''Do you want to install? (Y/n) '',
                      Prompt ''This will wipe everything. Are you sure? (Y/n) ''])
                (without_input
                   (Installer_install env
                      \<lparr>general = g, partitioning = p,
                         post_install = \<lparr>packages = [], scripts = []\<rparr>\<rparr>) rest')"
    by (simp add: r confirm_install_Cons bind_def emit_def without_input_def)
  have 4: "\<forall>env' inp' m left evs. run env' inp' = (Inl (SystemExit m), left, evs) \<longrightarrow>
            m = ''Installation aborted'' \<and> no_mutation evs"
    using run_exit by blast
  from 1 2 3 4 show ?thesis by (intro conjI)
qed

text \<open>
  A run on a machine with one disk and one known timezone: host name \<^verbatim>\<open>arch\<close>, the
  timezone found by a search, no user, the first disk with no separate home
  partition, both reviews accepted. Declining the first question, or accepting it
  with the empty line and declining the second, ends the run with \<open>SystemExit\<close> and
  nothing but prompts and the two \<^verbatim>\<open>lsblk\<close> queries behind it.
\<close>

theorem C7_decline_aborts_before_any_mutation_witness:
  "collect_general example_env [''arch'', ''/utc'', ''1'', [], [], ''1'', ''n'', [], [], ''No'']
     = (Inr \<lparr>timezone = ''UTC'', hostname = PStr ''arch'', users = []\<rparr>,
        [''1'', ''n'', [], [], ''No''],
        [Prompt ''Hostname: '', Prompt ''Timezone (1-1 or /search): '',
         Prompt ''Timezone (1-1 or /search): '', Prompt ''Username: '',
         Prompt (newline @ ''Is this ok? (Y/n) '')])
   \<and> collect_partitioning example_env [''1'', ''n'', [], [], ''No'']
     = (Inr (Partitioning_init ''/dev/sda'' 0 40960), [[], ''No''],
        [Run [''lsblk'', ''-d'', ''-o'', ''NAME,SIZE''], Prompt ''Device (1-1 or /search): '',
         Prompt ''Do you want a separate /home partition? (Y/n) '',
         Prompt ''Is this ok? (Y/n) '',
         Run [''lsblk'', ''-b'', ''-n'', ''-d'', ''-o'', ''SIZE'', ''/dev/sda'']])
   \<and> \<not> startswith (lower (strip [])) ''n'' \<and> startswith (lower (strip ''No'')) ''n''
   \<and> run example_env [''arch'', ''/utc'', ''1'', [], [], ''1'', ''n'', [], [], ''No'']
     = (Inl (SystemExit ''Installation aborted''), [],
        [Prompt ''Hostname: '', Prompt ''Timezone (1-1 or /search): '',
         Prompt ''Timezone (1-1 or /search): '', Prompt ''Username: '',
         Prompt (newline @ ''Is this ok? (Y/n) ''),
         Run [''lsblk'', ''-d'', ''-o'', ''NAME,SIZE''], Prompt ''Device (1-1 or /search): '',
         Prompt ''Do you want a separate /home partition? (Y/n) '',
         Prompt ''Is this ok? (Y/n) '',
         Run [''lsblk'', ''-b'', ''-n'', ''-d'', ''-o'', ''SIZE'', ''/dev/sda''],
         Prompt ''Do you want to install? (Y/n) '',
         Prompt ''This will wipe everything. Are you sure? (Y/n) ''])
   \<and> no_mutation (snd (snd (run example_env
         [''arch'', ''/utc'', ''1'', [], [], ''1'', ''n'', [], [], ''No''])))"
proof -
  have g: "collect_general example_env [''arch'', ''/utc'', ''1'', [], [], ''1'', ''n'', [], [], ''No'']
     = (Inr \<lparr>timezone = ''UTC'', hostname = PStr ''arch'', users = []\<rparr>,
        [''1'', ''n'', [], [], ''No''],
        [Prompt ''Hostname: '', Prompt ''Timezone (1-1 or /search): '',
         Prompt ''Timezone (1-1 or /search): '', Prompt ''Username: '',
         Prompt (newline @ ''Is this ok? (Y/n) '')])"
    by code_simp
  have p: "collect_partitioning example_env [''1'', ''n'', [], [], ''No'']
     = (Inr (Partitioning_init ''/dev/sda'' 0 40960), [[], ''No''],
        [Run [''lsblk'', ''-d'', ''-o'', ''NAME,SIZE''], Prompt ''Device (1-1 or /search): '',
         Prompt ''Do you want a separate /home partition? (Y/n) '',
         Prompt ''Is this ok? (Y/n) '',
         Run [''lsblk'', ''-b'', ''-n'', ''-d'', ''-o'', ''SIZE'', ''/dev/sda'']])"
    by code_simp
  have a: "\<not> startswith (lower (strip [])) ''n''" by code_simp
  have b: "startswith (lower (strip ''No'')) ''n''" by code_simp
  note t = C7_decline_aborts_before_any_mutation [OF g p]
  have c: "\<not> startswith (lower (strip [])) ''n'' \<and> [''No''] = ''No'' # []
           \<and> startswith (lower (strip ''No'')) ''n''"
    using a b by simp
  from t [THEN conjunct2, THEN conjunct1, rule_format, OF c] have
    "run example_env [''arch'', ''/utc'', ''1'', [], [], ''1'', ''n'', [], [], ''No'']
     = (Inl (SystemExit ''Installation aborted''), [],
        [Prompt ''Hostname: '', Prompt ''Timezone (1-1 or /search): '',
         Prompt ''Timezone (1-1 or /search): '', Prompt ''Username: '',
         Prompt (newline @ ''Is this ok? (Y/n) '')]
        @ [Run [''lsblk'', ''-d'', ''-o'', ''NAME,SIZE''], Prompt ''Device (1-1 or /search): '',
         Prompt ''Do you want a separate /home partition? (Y/n) '',
         Prompt ''Is this ok? (Y/n) '',
         Run [''lsblk'', ''-b'', ''-n'', ''-d'', ''-o'', ''SIZE'', ''/dev/sda'']]
        @ [Prompt ''Do you want to install? (Y/n) '',
         Prompt ''This will wipe everything. Are you sure? (Y/n) ''])
     \<and> no_mutation (snd (snd (run example_env
         [''arch'', ''/utc'', ''1'', [], [], ''1'', ''n'', [], [], ''No''])))" .
  note rn = this
  from rn [THEN conjunct1] have r: "run example_env [''arch'', ''/utc'', ''1'', [], [], ''1'', ''n'', [], [], ''No'']
     = (Inl (SystemExit ''Installation aborted''), [],
        [Prompt ''Hostname: '', Prompt ''Timezone (1-1 or /search): '',
         Prompt ''Timezone (1-1 or /search): '', Prompt ''Username: '',
         Prompt (newline @ ''Is this ok? (Y/n) ''),
         Run [''lsblk'', ''-d'', ''-o'', ''NAME,SIZE''], Prompt ''Device (1-1 or /search): '',
         Prompt ''Do you want a separate /home partition? (Y/n) '',
         Prompt ''Is this ok? (Y/n) '',
         Run [''lsblk'', ''-b'', ''-n'', ''-d'', ''-o'', ''SIZE'', ''/dev/sda''],
         Prompt ''Do you want to install? (Y/n) '',
         Prompt ''This will wipe everything. Are you sure? (Y/n) ''])"
    by (simp only: append.simps)
  from rn have n: "no_mutation (snd (snd (run example_env
         [''arch'', ''/utc'', ''1'', [], [], ''1'', ''n'', [], [], ''No''])))"
    by (rule conjunct2)
  from g p a b r n show ?thesis by (intro conjI)
qed


subsection \<open>C8: a yes/no question is answered yes unless the answer starts with n\<close>

text \<open>
  C8: every yes/no prompt treats an answer as yes unless its stripped, lower-cased
  form starts with \<^verbatim>\<open>n\<close>, that is, unless the stripped answer starts with \<^verbatim>\<open>n\<close> or
  \<^verbatim>\<open>N\<close>; the empty line is a yes. Both confirmations before the installation are such
  prompts, so pressing Enter at the question \<^verbatim>\<open>This will wipe everything. Are you sure?\<close>
  (after accepting the first) hands the installer over to be run.
\<close>

theorem C8_ask_yn_defaults_to_yes:
  "ask_yn prompt (line # rest)
     = (Inr (\<not> startswith (lower (strip line)) ''n''), rest, [Prompt prompt])
   \<and> (startswith (lower (strip line)) ''n''
        \<longleftrightarrow> startswith (strip line) ''n'' \<or> startswith (strip line) ''N'')
   \<and> ask_yn prompt ([] # rest) = (Inr True, rest, [Prompt prompt])
   \<and> (\<not> startswith (lower (strip a)) ''n'' \<longrightarrow>
        confirm_install g p (a # [] # rest)
          = (Inr \<lparr>general = g, partitioning = p,
                    post_install = \<lparr>packages = [], scripts = []\<rparr>\<rparr>, rest,
             [Prompt ''Do you want to install? (Y/n) '',
              Prompt ''This will wipe everything. Are you sure? (Y/n) '']))"
proof -
  have e: "\<not> startswith (lower (strip [])) ''n''"
    by (simp add: strip_def lower_def startswith_def)
  have 1: "ask_yn prompt (line # rest)
     = (Inr (\<not> startswith (lower (strip line)) ''n''), rest, [Prompt prompt])"
    by simp
  have 2: "startswith (lower (strip line)) ''n''
        \<longleftrightarrow> startswith (strip line) ''n'' \<or> startswith (strip line) ''N''"
    by (rule startswith_lower_n)
  have 3: "ask_yn prompt ([] # rest) = (Inr True, rest, [Prompt prompt])"
    using e by simp
  have 4: "\<not> startswith (lower (strip a)) ''n'' \<longrightarrow>
        confirm_install g p (a # [] # rest)
          = (Inr \<lparr>general = g, partitioning = p,
                    post_install = \<lparr>packages = [], scripts = []\<rparr>\<rparr>, rest,
             [Prompt ''Do you want to install? (Y/n) '',
              Prompt ''This will wipe everything. Are you sure? (Y/n) ''])"
    using e by (simp add: confirm_install_Cons)
  from 1 2 3 4 show ?thesis by (intro conjI)
qed

text \<open>
  The answers \<^verbatim>\<open>  No\<close> and \<^verbatim>\<open>yes\<close>; and the run of C7's example in which both
  confirmations are answered with the empty line: it installs.
\<close>

theorem C8_ask_yn_defaults_to_yes_witness:
  "ask_yn ''Is this ok? (Y/n) '' [''  No''] = (Inr False, [], [Prompt ''Is this ok? (Y/n) ''])
   \<and> ask_yn ''Is this ok? (Y/n) '' [''yes''] = (Inr True, [], [Prompt ''Is this ok? (Y/n) ''])
   \<and> ask_yn ''Is this ok? (Y/n) '' [[]] = (Inr True, [], [Prompt ''Is this ok? (Y/n) ''])
   \<and> \<not> startswith (lower (strip [])) ''n''
   \<and> confirm_install \<lparr>timezone = ''UTC'', hostname = PStr ''arch'', users = []\<rparr>
         (Partitioning_init ''/dev/sda'' 0 40960) [[], []]
       = (Inr \<lparr>general = \<lparr>timezone = ''UTC'', hostname = PStr ''arch'', users = []\<rparr>,
                 partitioning = Partitioning_init ''/dev/sda'' 0 40960,
                 post_install = \<lparr>packages = [], scripts = []\<rparr>\<rparr>, [],
          [Prompt ''Do you want to install? (Y/n) '',
           Prompt ''This will wipe everything. Are you sure? (Y/n) ''])
   \<and> fst (run example_env [''arch'', ''/utc'', ''1'', [], [], ''1'', ''n'', [], [], []]) = Inr ()
   \<and> layout (snd (snd (run example_env
         [''arch'', ''/utc'', ''1'', [], [], ''1'', ''n'', [], [], []])))
       = [(''fat32'', 0, 512), (''linux-swap'', 512, 1536), (''ext4'', 1536, 40960)]"
proof -
  note t = C8_ask_yn_defaults_to_yes
  have a: "\<not> startswith (lower (strip ''  No'')) ''n'' = False" by code_simp
  have b: "\<not> startswith (lower (strip ''yes'')) ''n'' = True" by code_simp
  have c: "\<not> startswith (lower (strip [])) ''n''" by code_simp
  have 1: "ask_yn ''Is this ok? (Y/n) '' [''  No'']
             = (Inr False, [], [Prompt ''Is this ok? (Y/n) ''])"
    using t [of "''Is this ok? (Y/n) ''" "''  No''" "[]", THEN conjunct1] a by simp
  have 2: "ask_yn ''Is this ok? (Y/n) '' [''yes'']
             = (Inr True, [], [Prompt ''Is this ok? (Y/n) ''])"
    using t [of "''Is this ok? (Y/n) ''" "''yes''" "[]", THEN conjunct1] b by simp
  have 3: "ask_yn ''Is this ok? (Y/n) '' [[]]
             = (Inr True, [], [Prompt ''Is this ok? (Y/n) ''])"
    by (rule t [THEN conjunct2, THEN conjunct2, THEN conjunct1])
  have 4: "confirm_install \<lparr>timezone = ''UTC'', hostname = PStr ''arch'', users = []\<rparr>
         (Partitioning_init ''/dev/sda'' 0 40960) [[], []]
       = (Inr \<lparr>general = \<lparr>timezone = ''UTC'', hostname = PStr ''arch'', users = []\<rparr>,
                 partitioning = Partitioning_init ''/dev/sda'' 0 40960,
                 post_install = \<lparr>packages = [], scripts = []\<rparr>\<rparr>, [],
          [Prompt ''Do you want to install? (Y/n) '',
           Prompt ''This will wipe everything. Are you sure? (Y/n) ''])"
    by (rule t [THEN conjunct2, THEN conjunct2, THEN conjunct2, rule_format, OF c])
  have 5: "fst (run example_env [''arch'', ''/utc'', ''1'', [], [], ''1'', ''n'', [], [], []]) = Inr ()"
    by code_simp
  have 6: "layout (snd (snd (run example_env
         [''arch'', ''/utc'', ''1'', [], [], ''1'', ''n'', [], [], []])))
       = [(''fat32'', 0, 512), (''linux-swap'', 512, 1536), (''ext4'', 1536, 40960)]"
    by code_simp
  from 1 2 3 c 4 5 6 show ?thesis by (intro conjI)
qed


subsection \<open>C9: a search narrows the pool of the menu\<close>

text \<open>
  C9: in \<open>choose\<close>, a line \<^verbatim>\<open>/q\<close> filters the current pool to the items in which \<open>q\<close>
  occurs, case ignored (the lower-cased item has the lower-cased \<open>q\<close> as a substring).
  When some item is left, the menu goes on with these items as its pool, so a second
  search narrows the result of the first; when none is left it prints
  \<^verbatim>\<open>No matches found\<close> and asks again with the pool unchanged. On
  \<^verbatim>\<open>["sda 100G", "sdb 50G"]\<close> the search \<^verbatim>\<open>/sdb\<close> leaves the pool \<^verbatim>\<open>["sdb 50G"]\<close>, on which
  \<^verbatim>\<open>/x\<close> finds nothing and changes nothing, and 1 then selects \<^verbatim>\<open>sdb 50G\<close>.
\<close>

theorem C9_search_narrows_the_pool:
  "choose' prompt items ((CHR ''/'' # q) # rest) =
     (if filter (\<lambda>item. contains (lower q) (lower item)) (elements items) \<noteq> []
      then emit [choose_prompt prompt items]
             (choose' prompt
                (PyList (filter (\<lambda>item. contains (lower q) (lower item)) (elements items))) rest)
      else emit [choose_prompt prompt items, Print ''No matches found'']
             (choose' prompt items rest))
   \<and> (item \<in> set (filter (\<lambda>item. contains (lower q) (lower item)) (elements items))
        \<longleftrightarrow> item \<in> set (elements items) \<and> (\<exists>pre post. lower item = pre @ lower q @ post))
   \<and> (filter (\<lambda>item. contains (lower q') (lower item))
          (filter (\<lambda>item. contains (lower q) (lower item)) (elements items)) \<noteq> [] \<longrightarrow>
        choose' prompt items ((CHR ''/'' # q) # (CHR ''/'' # q') # rest) =
          emit [choose_prompt prompt items,
                choose_prompt prompt
                  (PyList (filter (\<lambda>item. contains (lower q) (lower item)) (elements items)))]
            (choose' prompt
               (PyList (filter (\<lambda>item. contains (lower q') (lower item))
                  (filter (\<lambda>item. contains (lower q) (lower item)) (elements items)))) rest))"
proof -
  let ?m = "filter (\<lambda>item. contains (lower q) (lower item)) (elements items)"
  let ?m' = "filter (\<lambda>item. contains (lower q') (lower item)) ?m"
  have 1: "choose' prompt items ((CHR ''/'' # q) # rest) =
     (if ?m \<noteq> [] then emit [choose_prompt prompt items] (choose' prompt (PyList ?m) rest)
      else emit [choose_prompt prompt items, Print ''No matches found'']
             (choose' prompt items rest))"
    by (rule choose_search)
  have 2: "item \<in> set ?m
        \<longleftrightarrow> item \<in> set (elements items) \<and> (\<exists>pre post. lower item = pre @ lower q @ post)"
    by (simp add: contains_iff)
  have 3: "?m' \<noteq> [] \<longrightarrow>
        choose' prompt items ((CHR ''/'' # q) # (CHR ''/'' # q') # rest) =
          emit [choose_prompt prompt items, choose_prompt prompt (PyList ?m)]
            (choose' prompt (PyList ?m') rest)"
  proof
    assume n: "?m' \<noteq> []"
    have "?m \<noteq> []"
    proof
      assume "?m = []"
      then have "?m' = []" by (simp only: filter.simps)
      with n show False by simp
    qed
    with n show "choose' prompt items ((CHR ''/'' # q) # (CHR ''/'' # q') # rest) =
          emit [choose_prompt prompt items, choose_prompt prompt (PyList ?m)]
            (choose' prompt (PyList ?m') rest)"
      by (simp only: choose_search [of prompt items q] choose_search [of prompt "PyList ?m" q']
            elements.simps if_True)
         (simp add: emit_def split: prod.split)
  qed
  from 1 2 3 show ?thesis by (intro conjI)
qed

theorem C9_search_narrows_the_pool_witness:
  "choose' ''Device'' (PyList [''sda 100G'', ''sdb 50G'']) [''/sdb'', ''/x'', ''1'']
     = emit [choose_prompt ''Device'' (PyList [''sda 100G'', ''sdb 50G''])]
         (choose' ''Device'' (PyList [''sdb 50G'']) [''/x'', ''1''])
   \<and> choose' ''Device'' (PyList [''sdb 50G'']) [''/x'', ''1'']
     = emit [choose_prompt ''Device'' (PyList [''sdb 50G'']), Print ''No matches found'']
         (choose' ''Device'' (PyList [''sdb 50G'']) [''1''])
   \<and> choose' ''Device'' (PyList [''sdb 50G'']) [''1'']
     = (Inr ''sdb 50G'', [], [Prompt ''Device (1-1 or /search): ''])
   \<and> choose' ''Device'' (PyList [''sda 100G'', ''sdb 50G'']) [''/sdb'', ''/x'', ''1'']
     = (Inr ''sdb 50G'', [],
        [Prompt ''Device (1-2 or /search): '', Prompt ''Device (1-1 or /search): '',
         Print ''No matches found'', Prompt ''Device (1-1 or /search): ''])
   \<and> filter (\<lambda>item. contains (lower ''0g'') (lower item))
        (filter (\<lambda>item. contains (lower ''SD'') (lower item))
           (elements (PyList [''sda 100G'', ''sdb 50G'', ''nvme0n1 1T'']))) = [''sda 100G'', ''sdb 50G'']
   \<and> choose' ''Device'' (PyList [''sda 100G'', ''sdb 50G'', ''nvme0n1 1T'']) [''/SD'', ''/0g'', ''2'']
     = emit [choose_prompt ''Device'' (PyList [''sda 100G'', ''sdb 50G'', ''nvme0n1 1T'']),
             choose_prompt ''Device'' (PyList [''sda 100G'', ''sdb 50G''])]
         (choose' ''Device'' (PyList [''sda 100G'', ''sdb 50G'']) [''2''])"
proof -
  have m1: "filter (\<lambda>item. contains (lower ''sdb'') (lower item))
              (elements (PyList [''sda 100G'', ''sdb 50G''])) = [''sdb 50G'']"
    by code_simp
  have m2: "filter (\<lambda>item. contains (lower ''x'') (lower item))
              (elements (PyList [''sdb 50G''])) = []"
    by code_simp
  have m3: "filter (\<lambda>item. contains (lower ''SD'') (lower item))
              (elements (PyList [''sda 100G'', ''sdb 50G'', ''nvme0n1 1T''])) = [''sda 100G'', ''sdb 50G'']"
    by code_simp
  have m4: "filter (\<lambda>item. contains (lower ''0g'') (lower item))
        (filter (\<lambda>item. contains (lower ''SD'') (lower item))
           (elements (PyList [''sda 100G'', ''sdb 50G'', ''nvme0n1 1T'']))) = [''sda 100G'', ''sdb 50G'']"
    by code_simp
  have 1: "choose' ''Device'' (PyList [''sda 100G'', ''sdb 50G'']) [''/sdb'', ''/x'', ''1'']
     = emit [choose_prompt ''Device'' (PyList [''sda 100G'', ''sdb 50G''])]
         (choose' ''Device'' (PyList [''sdb 50G'']) [''/x'', ''1''])"
    using C9_search_narrows_the_pool
            [where prompt = "''Device''" and items = "PyList [''sda 100G'', ''sdb 50G'']"
               and q = "''sdb''" and rest = "[''/x'', ''1'']", THEN conjunct1]
    by (simp only: m1) simp
  have 2: "choose' ''Device'' (PyList [''sdb 50G'']) [''/x'', ''1'']
     = emit [choose_prompt ''Device'' (PyList [''sdb 50G'']), Print ''No matches found'']
         (choose' ''Device'' (PyList [''sdb 50G'']) [''1''])"
    using C9_search_narrows_the_pool
            [where prompt = "''Device''" and items = "PyList [''sdb 50G'']"
               and q = "''x''" and rest = "[''1'']", THEN conjunct1]
    by (simp only: m2) simp
  have 3: "choose' ''Device'' (PyList [''sdb 50G'']) [''1'']
     = (Inr ''sdb 50G'', [], [Prompt ''Device (1-1 or /search): ''])"
    by code_simp
  have 4: "choose' ''Device'' (PyList [''sda 100G'', ''sdb 50G'']) [''/sdb'', ''/x'', ''1'']
     = (Inr ''sdb 50G'', [],
        [Prompt ''Device (1-2 or /search): '', Prompt ''Device (1-1 or /search): '',
         Print ''No matches found'', Prompt ''Device (1-1 or /search): ''])"
    by code_simp
  have n: "filter (\<lambda>item. contains (lower ''0g'') (lower item))
        (filter (\<lambda>item. contains (lower ''SD'') (lower item))
           (elements (PyList [''sda 100G'', ''sdb 50G'', ''nvme0n1 1T'']))) \<noteq> []"
    by (simp only: m4) simp
  have 5: "choose' ''Device'' (PyList [''sda 100G'', ''sdb 50G'', ''nvme0n1 1T'']) [''/SD'', ''/0g'', ''2'']
     = emit [choose_prompt ''Device'' (PyList [''sda 100G'', ''sdb 50G'', ''nvme0n1 1T'']),
             choose_prompt ''Device'' (PyList [''sda 100G'', ''sdb 50G''])]
         (choose' ''Device'' (PyList [''sda 100G'', ''sdb 50G'']) [''2''])"
    using C9_search_narrows_the_pool
            [where prompt = "''Device''"
               and items = "PyList [''sda 100G'', ''sdb 50G'', ''nvme0n1 1T'']"
               and q = "''SD''" and q' = "''0g''" and rest = "[''2'']",
             THEN conjunct2, THEN conjunct2, rule_format, OF n]
    by (simp only: m4) (simp only: m3)
  from 1 2 3 4 m4 5 show ?thesis by (intro conjI)
qed

end
